theory Spec2Isabelle
  imports Complex_Main "HOL-Library.Word"
begin

section \<open>Satellite rasterizer of l5kit: \<^verbatim>\<open>l5kit/rasterization/satellite_rasterizer.py\<close>\<close>

text \<open>
  The module holds one loader function, \<^verbatim>\<open>_load_image_and_metadata\<close>, and the class
  \<^verbatim>\<open>SatelliteRasterizer\<close> with its constructor and the methods \<^verbatim>\<open>rasterize\<close> and
  \<^verbatim>\<open>to_rgb\<close>. Everything else it calls lives in other modules (the geometry helpers,
  the crop primitive, the data manager) or in libraries (numpy, cv2, json): those are
  parameters of the model, gathered in the records \<open>deps\<close>, \<open>helpers\<close> and
  \<open>storage\<close>, so every statement below holds for whatever these collaborators
  compute. The methods are modelled twice: as functions of the values they read, for
  what a call computes, and as statements over the object and a store of shared arrays,
  for what a call leaves untouched; the two agree (\<open>rasterize_st_refines\<close>).
\<close>

subsection \<open>Exceptions\<close>

text \<open>
  A Python call either returns a value or raises. A raising call is \<open>Inl e\<close>, and
  \<open>bindE\<close> is the sequencing of two statements: the second runs only if the first
  returned.
\<close>

datatype exn =
    IndexError
  | TypeError
  | FileNotFoundError
  | PermissionError
  | JSONDecodeError
  | LinAlgError
  | AssertionError
  | ValueError
  | OtherError string

definition bindE :: "exn + 'a \<Rightarrow> ('a \<Rightarrow> exn + 'b) \<Rightarrow> exn + 'b" where
  "bindE r k = (case r of Inl e \<Rightarrow> Inl e | Inr v \<Rightarrow> k v)"

subsection \<open>IEEE binary floating point, as far as the pixel arithmetic needs it\<close>

text \<open>
  The two pixel conversions, \<^verbatim>\<open>sat_im.astype(np.float32) / 255\<close> and
  \<^verbatim>\<open>(in_im * 255).astype(np.uint8)\<close>, are float arithmetic on values that matter
  digit by digit, so they are modelled exactly. A finite float is the real number it
  denotes; NaN and the infinities are outside the model. An IEEE operation returns the
  exact result rounded to the nearest float of the format, ties to the even
  significand: \<open>fl_round\<close>. The grid around \<open>x\<close> has spacing
  \<open>2 ^ (e - (p - 1))\<close>, where \<open>p\<close> is the precision and \<open>e\<close> is the exponent of
  \<open>x\<close>, not below the format's least exponent (the subnormal range). A result that
  would overflow the format is left as the large real it is; the only place it could
  reach, the cast to uint8, rejects it as out of range.
\<close>

datatype dtype = Float32 | Float64

fun prec :: "dtype \<Rightarrow> nat" where
  "prec Float32 = 24"
| "prec Float64 = 53"

fun emin :: "dtype \<Rightarrow> int" where
  "emin Float32 = - 126"
| "emin Float64 = - 1022"

function expo_up :: "real \<Rightarrow> int" where
  "expo_up x = (if x < 2 then 0 else 1 + expo_up (x / 2))"
  by pat_completeness auto
termination
  by (relation "measure (\<lambda>x. nat \<lceil>x\<rceil>)") (auto, linarith)

declare expo_up.simps [simp del]

fun expo_down :: "nat \<Rightarrow> real \<Rightarrow> int" where
  "expo_down 0 x = 0"
| "expo_down (Suc n) x = (if 1 \<le> x then 0 else expo_down n (2 * x) - 1)"

definition fl_expo :: "dtype \<Rightarrow> real \<Rightarrow> int" where
  "fl_expo d x =
     (if 1 \<le> \<bar>x\<bar> then expo_up \<bar>x\<bar> else expo_down (nat (- emin d)) \<bar>x\<bar>)"

definition round_even :: "real \<Rightarrow> int" where
  "round_even x =
     (let f = \<lfloor>x\<rfloor>; r = x - of_int f
      in if r < 1 / 2 then f else if 1 / 2 < r then f + 1 else if even f then f else f + 1)"

definition fl_ulp :: "dtype \<Rightarrow> real \<Rightarrow> real" where
  "fl_ulp d x = 2 powi (fl_expo d x - (int (prec d) - 1))"

definition fl_round :: "dtype \<Rightarrow> real \<Rightarrow> real" where
  "fl_round d x = of_int (round_even (x / fl_ulp d x)) * fl_ulp d x"

text \<open>
  The C conversion behind \<^verbatim>\<open>astype(np.uint8)\<close> drops the fraction (towards zero). It
  is defined only when the truncated value is a uint8; numpy gives a platform
  dependent byte otherwise, which is \<open>None\<close> here.
\<close>

definition trunc :: "real \<Rightarrow> int" where
  "trunc y = (if 0 \<le> y then \<lfloor>y\<rfloor> else \<lceil>y\<rceil>)"

type_synonym u8 = "8 word"

definition astype_uint8 :: "real \<Rightarrow> u8 option" where
  "astype_uint8 y = (let t = trunc y in if 0 \<le> t \<and> t < 256 then Some (word_of_int t) else None)"

subsection \<open>Data\<close>

text \<open>
  An image is a uint8 array of rows of pixels of channels, as \<^verbatim>\<open>cv2.imread\<close> returns
  it; the output of \<open>rasterize\<close> is a float32 array of the same shape. The scalars of
  poses and transforms have an abstract type \<open>'f\<close>: the module never looks inside
  them but through the numpy operations of \<open>deps\<close>. An element of \<open>'f\<close> is a numpy
  scalar as a collaborator receives it, its dtype included: a float32 and a float64 scalar
  that denote the same number are two elements of \<open>'f\<close>, as in the type \<open>scalar\<close>
  of the last example below, and a collaborator may tell them apart. One-dimensional
  arrays are lists, matrices are lists of rows. A frame and an agent are elements of the
  structured arrays of the dataset: \<^verbatim>\<open>ego_translation\<close> has three components,
  \<^verbatim>\<open>centroid\<close> two.
\<close>

type_synonym image = "u8 list list list"
type_synonym fimage = "real list list list"
type_synonym 'f vec = "'f list"
type_synonym 'f matrix = "'f list list"

record 'f frame =
  ego_translation :: "'f \<times> 'f \<times> 'f"
  ego_rotation :: "'f matrix"

record 'f agent =
  centroid :: "'f \<times> 'f"
  yaw :: 'f

text \<open>
  The collaborators. The first four are functions of l5kit (\<^verbatim>\<open>..geometry\<close> and
  \<^verbatim>\<open>.satellite_image\<close>), the rest are numpy: \<^verbatim>\<open>np.linalg.inv\<close>, \<^verbatim>\<open>np.linalg.norm\<close>,
  the conversion of a Python int to a float scalar, the float literal \<^verbatim>\<open>0.5\<close>, and
  float multiplication, addition, division and negation. Any of the calls that take
  arrays may raise.
\<close>

record 'f deps =
  rotation33_as_yaw :: "'f matrix \<Rightarrow> exn + 'f"
  world_to_image_pixels_matrix ::
    "int \<times> int \<Rightarrow> 'f vec \<Rightarrow> 'f \<times> 'f \<times> 'f \<Rightarrow> 'f \<Rightarrow> 'f vec \<Rightarrow> exn + 'f matrix"
  transform_point :: "'f vec \<Rightarrow> 'f matrix \<Rightarrow> exn + 'f vec"
  get_sat_image_crop_scaled ::
    "image \<Rightarrow> int \<times> int \<Rightarrow> 'f vec \<Rightarrow> 'f \<Rightarrow> 'f vec \<Rightarrow> 'f \<Rightarrow> int \<Rightarrow> exn + image"
  linalg_inv :: "'f matrix \<Rightarrow> exn + 'f matrix"
  linalg_norm :: "'f vec \<Rightarrow> 'f"
  np_float :: "int \<Rightarrow> 'f"
  np_half :: "'f"
  np_mul :: "'f \<Rightarrow> 'f \<Rightarrow> 'f"
  np_add :: "'f \<Rightarrow> 'f \<Rightarrow> 'f"
  np_div :: "'f \<Rightarrow> 'f \<Rightarrow> 'f"
  np_neg :: "'f \<Rightarrow> 'f"

text \<open>
  The attributes of a \<^verbatim>\<open>SatelliteRasterizer\<close> object, each with the value a call
  reads from it.
\<close>

record 'f engine =
  raster_size :: "int \<times> int"
  pixel_size :: "'f vec"
  ego_center :: "'f vec"
  map_im :: image
  map_to_sat :: "'f matrix"
  interpolation :: int
  map_pixel_scale :: 'f

subsection \<open>The constructor\<close>

text \<open>
  \<^verbatim>\<open>map_to_sat[i, a:b]\<close>: row \<open>i\<close> must exist, the slice is clipped to the row.
  \<^verbatim>\<open>cv2.INTER_LINEAR\<close>, the default of the last argument, is the constant 1. The
  constructor itself, \<open>init\<close>, comes with the object further down.
\<close>

definition row_slice :: "'f matrix \<Rightarrow> nat \<Rightarrow> nat \<Rightarrow> nat \<Rightarrow> exn + 'f vec" where
  "row_slice m i a b =
     (if i < length m then Inr (take (b - a) (drop a (m ! i))) else Inl IndexError)"

definition INTER_LINEAR :: int where
  "INTER_LINEAR = 1"

subsection \<open>rasterize\<close>

text \<open>
  \<^verbatim>\<open>history_frames[0]\<close> raises IndexError on an empty history. \<open>third\<close> is
  \<^verbatim>\<open>ego_translation[2]\<close> and \<^verbatim>\<open>ego_translation[-1]\<close> of a three-component vector,
  \<open>np_append2\<close> is \<^verbatim>\<open>np.append\<close> of a two-component vector and a scalar.
  \<open>normalize_px\<close> is one element of \<^verbatim>\<open>sat_im.astype(np.float32) / 255\<close>: the byte
  converts to float32 exactly and the division is rounded to float32.
\<close>

definition first :: "'a list \<Rightarrow> exn + 'a" where
  "first xs = (case xs of [] \<Rightarrow> Inl IndexError | x # _ \<Rightarrow> Inr x)"

definition third :: "'f \<times> 'f \<times> 'f \<Rightarrow> 'f" where
  "third t = (case t of (x, y, z) \<Rightarrow> z)"

definition np_append2 :: "'f \<times> 'f \<Rightarrow> 'f \<Rightarrow> 'f \<times> 'f \<times> 'f" where
  "np_append2 c z = (case c of (x, y) \<Rightarrow> (x, y, z))"

definition normalize_px :: "u8 \<Rightarrow> real" where
  "normalize_px v = fl_round Float32 (real (unat v) / 255)"

definition rasterize ::
  "'f deps \<Rightarrow> 'f engine \<Rightarrow> 'f frame list \<Rightarrow> 'f agent list list \<Rightarrow> 'f agent option
     \<Rightarrow> exn + fimage" where
  "rasterize N self history_frames history_agents agent =
     bindE
       (case agent of
          None \<Rightarrow>
            bindE (first history_frames) (\<lambda>f0.
            bindE (first history_frames) (\<lambda>f0'.
            bindE (rotation33_as_yaw N (ego_rotation f0')) (\<lambda>ego_yaw.
              Inr (ego_translation f0, ego_yaw))))
        | Some a \<Rightarrow>
            bindE (first history_frames) (\<lambda>f0.
              Inr (np_append2 (centroid a) (third (ego_translation f0)), yaw a)))
       (\<lambda>(ego_translation', ego_yaw).
     bindE (world_to_image_pixels_matrix N (raster_size self) (pixel_size self)
              ego_translation' ego_yaw (ego_center self)) (\<lambda>world_to_image_space.
     let center_pixel =
           [np_mul N (np_float N (fst (raster_size self))) (np_half N),
            np_mul N (np_float N (snd (raster_size self))) (np_half N)] in
     bindE (linalg_inv N world_to_image_space) (\<lambda>inverse.
     bindE (transform_point N center_pixel inverse) (\<lambda>world_translation.
     bindE (transform_point N (world_translation @ [third ego_translation'])
              (map_to_sat self)) (\<lambda>sat_translation.
     bindE (get_sat_image_crop_scaled N (map_im self) (raster_size self) sat_translation
              (np_neg N ego_yaw) (pixel_size self) (map_pixel_scale self)
              (interpolation self)) (\<lambda>sat_im.
     let sat_im' = rev sat_im in
     Inr (map (map (map normalize_px)) sat_im')))))))"

subsection \<open>to_rgb\<close>

text \<open>
  \<^verbatim>\<open>(in_im * 255).astype(np.uint8)\<close> on a float array of type \<open>d\<close>: the product is
  rounded to \<open>d\<close>, the cast truncates. The method reads no attribute of the object.
\<close>

definition to_rgb :: "dtype \<Rightarrow> fimage \<Rightarrow> u8 option list list list" where
  "to_rgb d in_im = map (map (map (\<lambda>x. astype_uint8 (fl_round d (x * 255))))) in_im"

subsection \<open>The object and the arrays it shares\<close>

text \<open>
  numpy arrays are mutable and passed by reference: the arrays handed to the constructor
  stay shared with the caller, and a helper that is given one can write into it. To
  state what a call leaves untouched, the constructor and the two methods are modelled as
  statements over a store. The store is the list of the array buffers allocated so far, a
  reference is an index into it, and allocating appends to it. A buffer is a vector or
  a matrix of scalars, a uint8 image, a float image with its dtype, or the byte image
  that \<^verbatim>\<open>to_rgb\<close> returns (\<open>None\<close> where the cast is undefined). Tuples, ints and
  float scalars are immutable values. Reading through a reference raises TypeError when
  the buffer is of another kind.
\<close>

datatype 'f ndarray =
    Vec "'f vec"
  | Mat "'f matrix"
  | Img image
  | FImg dtype fimage
  | Bytes "u8 option list list list"

type_synonym addr = nat
type_synonym 'f heap = "'f ndarray list"

definition deref :: "'f heap \<Rightarrow> addr \<Rightarrow> exn + 'f ndarray" where
  "deref H a = (if a < length H then Inr (H ! a) else Inl (OtherError ''no such array''))"

definition read_vec :: "'f heap \<Rightarrow> addr \<Rightarrow> exn + 'f vec" where
  "read_vec H a = bindE (deref H a) (\<lambda>b. case b of Vec v \<Rightarrow> Inr v | _ \<Rightarrow> Inl TypeError)"

definition read_mat :: "'f heap \<Rightarrow> addr \<Rightarrow> exn + 'f matrix" where
  "read_mat H a = bindE (deref H a) (\<lambda>b. case b of Mat m \<Rightarrow> Inr m | _ \<Rightarrow> Inl TypeError)"

definition read_img :: "'f heap \<Rightarrow> addr \<Rightarrow> exn + image" where
  "read_img H a = bindE (deref H a) (\<lambda>b. case b of Img im \<Rightarrow> Inr im | _ \<Rightarrow> Inl TypeError)"

definition read_fimg :: "'f heap \<Rightarrow> addr \<Rightarrow> exn + dtype \<times> fimage" where
  "read_fimg H a =
     bindE (deref H a) (\<lambda>b. case b of FImg d x \<Rightarrow> Inr (d, x) | _ \<Rightarrow> Inl TypeError)"

text \<open>
  The attribute table of a \<^verbatim>\<open>SatelliteRasterizer\<close> object: \<^verbatim>\<open>raster_size\<close> is a
  tuple, \<^verbatim>\<open>interpolation\<close> an int, \<^verbatim>\<open>map_pixel_scale\<close> a float scalar, and the other
  four attributes are references to arrays. An element of \<^verbatim>\<open>history_frames\<close> and an
  agent record are views into the caller's structured arrays: their array fields are
  references, the agent's \<^verbatim>\<open>yaw\<close> is a scalar.
\<close>

record 'f rasterizer =
  raster_size_attr :: "int \<times> int"
  pixel_size_attr :: addr
  ego_center_attr :: addr
  map_im_attr :: addr
  map_to_sat_attr :: addr
  interpolation_attr :: int
  map_pixel_scale_attr :: 'f

record frame_ref =
  ego_translation_at :: addr
  ego_rotation_at :: addr

record 'f agent_ref =
  centroid_at :: addr
  yaw_of :: 'f

text \<open>
  The four helpers of l5kit as the interpreter runs them: a helper receives references
  and immutable values, may read the store, write into it and allocate, and returns a
  scalar or a reference, to a new array or to one it was given. Their code is not in
  the module, so nothing more is fixed about them here. The functions of numpy that the
  module calls itself do not write to their arguments; they stay the functions of values
  of \<open>deps\<close>.
\<close>

record 'f helpers =
  rotation33_as_yaw_st :: "addr \<Rightarrow> 'f heap \<Rightarrow> (exn + 'f) \<times> 'f heap"
  world_to_image_pixels_matrix_st ::
    "int \<times> int \<Rightarrow> addr \<Rightarrow> addr \<Rightarrow> 'f \<Rightarrow> addr \<Rightarrow> 'f heap \<Rightarrow> (exn + addr) \<times> 'f heap"
  transform_point_st :: "addr \<Rightarrow> addr \<Rightarrow> 'f heap \<Rightarrow> (exn + addr) \<times> 'f heap"
  get_sat_image_crop_scaled_st ::
    "addr \<Rightarrow> int \<times> int \<Rightarrow> addr \<Rightarrow> 'f \<Rightarrow> addr \<Rightarrow> 'f \<Rightarrow> int \<Rightarrow> 'f heap
       \<Rightarrow> (exn + addr) \<times> 'f heap"

text \<open>
  A statement of a method body takes the attribute table of \<^verbatim>\<open>self\<close> and the store to
  a result or an exception, and to the table and the store it leaves behind; what a
  statement did before it raised stays done. \<open>eval\<close> is a computation on values,
  \<open>attr\<close> reads an attribute, \<open>fetch\<close> reads an array through a reference,
  \<open>alloc\<close> creates an array and \<open>call\<close> runs a helper, which sees the store but not
  the attribute table: no helper is handed \<^verbatim>\<open>self\<close>.
\<close>

type_synonym ('f, 'a) stmt =
  "'f rasterizer \<times> 'f heap \<Rightarrow> (exn + 'a) \<times> 'f rasterizer \<times> 'f heap"

definition bindS :: "('f, 'a) stmt \<Rightarrow> ('a \<Rightarrow> ('f, 'b) stmt) \<Rightarrow> ('f, 'b) stmt" where
  "bindS m k w = (case m w of (Inl e, w') \<Rightarrow> (Inl e, w') | (Inr v, w') \<Rightarrow> k v w')"

definition eval :: "exn + 'a \<Rightarrow> ('f, 'a) stmt" where
  "eval r w = (r, w)"

definition attr :: "('f rasterizer \<Rightarrow> 'a) \<Rightarrow> ('f, 'a) stmt" where
  "attr f w = (Inr (f (fst w)), w)"

definition fetch :: "('f heap \<Rightarrow> addr \<Rightarrow> exn + 'a) \<Rightarrow> addr \<Rightarrow> ('f, 'a) stmt" where
  "fetch rd a w = (rd (snd w) a, w)"

definition alloc :: "'f ndarray \<Rightarrow> ('f, addr) stmt" where
  "alloc v w = (Inr (length (snd w)), (fst w, snd w @ [v]))"

definition call :: "('f heap \<Rightarrow> (exn + 'a) \<times> 'f heap) \<Rightarrow> ('f, 'a) stmt" where
  "call c w = (case c (snd w) of (r, H') \<Rightarrow> (r, (fst w, H')))"

definition last_elem :: "'a list \<Rightarrow> exn + 'a" where
  "last_elem xs = (if xs = [] then Inl IndexError else Inr (last xs))"

definition elem :: "'a list \<Rightarrow> nat \<Rightarrow> exn + 'a" where
  "elem xs i = (if i < length xs then Inr (xs ! i) else Inl IndexError)"

text \<open>
  The body of \<^verbatim>\<open>rasterize\<close>, statement by statement in the order in which Python
  evaluates it. With no agent, \<^verbatim>\<open>ego_translation\<close> is the view into the caller's frame
  array; with an agent it is the new array that \<^verbatim>\<open>np.append\<close> returns. The elements
  \<^verbatim>\<open>ego_translation[-1]\<close> and \<^verbatim>\<open>ego_translation[2]\<close> are read from the store at the
  moment the source reads them, the second one after the raster transform builder, the
  inversion and the first point transform have run. \<^verbatim>\<open>center_pixel\<close>, the inverse, the
  three-dimensional world point and the returned image are arrays that the body itself
  allocates; the temporaries that no name and no callee ever sees (the array of
  \<^verbatim>\<open>np.asarray\<close> before the multiplication, the float32 copy before the division) are
  left out. The body contains no assignment to an attribute of \<^verbatim>\<open>self\<close> and no
  in-place operation on an array, so the model of it has no statement that writes.
\<close>

definition rasterize_st ::
  "'f helpers \<Rightarrow> 'f deps \<Rightarrow> frame_ref list \<Rightarrow> 'f agent_ref list list \<Rightarrow> 'f agent_ref option
     \<Rightarrow> ('f, addr) stmt" where
  "rasterize_st L N history_frames history_agents agent =
     bindS
       (case agent of
          None \<Rightarrow>
            bindS (eval (first history_frames)) (\<lambda>f0.
            bindS (eval (first history_frames)) (\<lambda>f0'.
            bindS (call (rotation33_as_yaw_st L (ego_rotation_at f0'))) (\<lambda>ego_yaw.
              eval (Inr (ego_translation_at f0, ego_yaw)))))
        | Some a \<Rightarrow>
            bindS (eval (first history_frames)) (\<lambda>f0.
            bindS (fetch read_vec (ego_translation_at f0)) (\<lambda>t.
            bindS (eval (last_elem t)) (\<lambda>z.
            bindS (fetch read_vec (centroid_at a)) (\<lambda>c.
            bindS (alloc (Vec (c @ [z]))) (\<lambda>ego_translation.
              eval (Inr (ego_translation, yaw_of a))))))))
       (\<lambda>(ego_translation, ego_yaw).
     bindS (attr raster_size_attr) (\<lambda>rs.
     bindS (attr pixel_size_attr) (\<lambda>ps.
     bindS (attr ego_center_attr) (\<lambda>ec.
     bindS (call (world_to_image_pixels_matrix_st L rs ps ego_translation ego_yaw ec))
       (\<lambda>world_to_image_space.
     bindS (attr raster_size_attr) (\<lambda>rs'.
     bindS (alloc (Vec [np_mul N (np_float N (fst rs')) (np_half N),
                        np_mul N (np_float N (snd rs')) (np_half N)])) (\<lambda>center_pixel.
     bindS (fetch read_mat world_to_image_space) (\<lambda>w.
     bindS (eval (linalg_inv N w)) (\<lambda>wi.
     bindS (alloc (Mat wi)) (\<lambda>inverse.
     bindS (call (transform_point_st L center_pixel inverse)) (\<lambda>world_translation.
     bindS (fetch read_vec world_translation) (\<lambda>wt.
     bindS (fetch read_vec ego_translation) (\<lambda>t.
     bindS (eval (elem t 2)) (\<lambda>z.
     bindS (alloc (Vec (wt @ [z]))) (\<lambda>world_point.
     bindS (attr map_to_sat_attr) (\<lambda>mts.
     bindS (call (transform_point_st L world_point mts)) (\<lambda>sat_translation.
     bindS (attr map_im_attr) (\<lambda>im.
     bindS (attr raster_size_attr) (\<lambda>rs''.
     bindS (attr pixel_size_attr) (\<lambda>ps'.
     bindS (attr map_pixel_scale_attr) (\<lambda>scale.
     bindS (attr interpolation_attr) (\<lambda>interp.
     bindS (call (get_sat_image_crop_scaled_st L im rs'' sat_translation (np_neg N ego_yaw)
                    ps' scale interp)) (\<lambda>sat_im.
     bindS (fetch read_img sat_im) (\<lambda>raw.
     alloc (FImg Float32 (map (map (map normalize_px)) (rev raw)))))))))))))))))))))))))))"

text \<open>\<^verbatim>\<open>to_rgb\<close> reads the array it is given and returns a new one.\<close>

definition to_rgb_st :: "addr \<Rightarrow> ('f, addr) stmt" where
  "to_rgb_st in_im =
     bindS (fetch read_fimg in_im) (\<lambda>(d, x). alloc (Bytes (to_rgb d x)))"

text \<open>
  The constructor stores its arguments, the arrays by reference, and computes the
  pixel scale from the two slices \<^verbatim>\<open>map_to_sat[0, 0:3]\<close> and \<^verbatim>\<open>map_to_sat[1, 0:3]\<close> of
  the calibration matrix, which it reads through the argument. It calls numpy only. When
  it raises, no object comes into being.
\<close>

definition init ::
  "'f deps \<Rightarrow> int \<times> int \<Rightarrow> addr \<Rightarrow> addr \<Rightarrow> addr \<Rightarrow> addr \<Rightarrow> int option \<Rightarrow> 'f heap
     \<Rightarrow> (exn + 'f rasterizer) \<times> 'f heap" where
  "init N raster_size' pixel_size' ego_center' map_im' map_to_sat' interpolation' H =
     (bindE (read_mat H map_to_sat') (\<lambda>m.
      bindE (row_slice m 0 0 3) (\<lambda>r0.
      bindE (row_slice m 1 0 3) (\<lambda>r1.
        Inr \<lparr>raster_size_attr = raster_size',
             pixel_size_attr = pixel_size',
             ego_center_attr = ego_center',
             map_im_attr = map_im',
             map_to_sat_attr = map_to_sat',
             interpolation_attr = (case interpolation' of None \<Rightarrow> INTER_LINEAR | Some i \<Rightarrow> i),
             map_pixel_scale_attr =
               np_div N
                 (np_add N (np_div N (np_float N 1) (linalg_norm N r0))
                           (np_div N (np_float N 1) (linalg_norm N r1)))
                 (np_float N 2)\<rparr>))), H)"

text \<open>
  What a client does with an object once it is constructed: it calls \<^verbatim>\<open>rasterize\<close>,
  it calls \<^verbatim>\<open>to_rgb\<close>, or it allocates arrays of its own, the arguments of later calls.
  \<open>run\<close> is a sequence of such steps; an exception of one step is the client's to
  handle, and the next step starts from the state the failed one left.
\<close>

datatype 'f step =
    Rasterize "frame_ref list" "'f agent_ref list list" "'f agent_ref option"
  | To_rgb addr
  | New "'f ndarray"

fun invoke :: "'f helpers \<Rightarrow> 'f deps \<Rightarrow> 'f step \<Rightarrow> ('f, addr) stmt" where
  "invoke L N (Rasterize history_frames history_agents agent) =
     rasterize_st L N history_frames history_agents agent"
| "invoke L N (To_rgb in_im) = to_rgb_st in_im"
| "invoke L N (New v) = alloc v"

fun run ::
  "'f helpers \<Rightarrow> 'f deps \<Rightarrow> 'f step list \<Rightarrow> 'f rasterizer \<times> 'f heap
     \<Rightarrow> 'f rasterizer \<times> 'f heap" where
  "run L N [] w = w"
| "run L N (c # cs) w = run L N cs (snd (invoke L N c w))"

text \<open>
  Modelled from the spec: its section 6 consumes the helpers as black-box functions
  with a contract (the yaw extraction is a ``pure function'', the others take their
  arguments to a result), and its section 5 has the base image ``not mutated for the
  engine's lifetime''. \<open>read_only\<close> is that contract as far as the store goes: a helper
  may allocate, and it leaves every array that exists when it is called as it is.
\<close>

definition only_allocates :: "('f heap \<Rightarrow> 'a \<times> 'f heap) \<Rightarrow> bool" where
  "only_allocates c = (\<forall>H. \<exists>new. snd (c H) = H @ new)"

definition read_only :: "'f helpers \<Rightarrow> bool" where
  "read_only L =
     ((\<forall>m. only_allocates (rotation33_as_yaw_st L m)) \<and>
      (\<forall>rs ps t y ec. only_allocates (world_to_image_pixels_matrix_st L rs ps t y ec)) \<and>
      (\<forall>p m. only_allocates (transform_point_st L p m)) \<and>
      (\<forall>im rs c y ps s i. only_allocates (get_sat_image_crop_scaled_st L im rs c y ps s i)))"

text \<open>
  Three properties of a statement: it leaves the attribute table as it was, whatever
  its outcome; it leaves the attribute table and every existing array as they were; and
  the reference it returns is to an array that was allocated while it ran.
\<close>

definition keeps_table :: "('f, 'a) stmt \<Rightarrow> bool" where
  "keeps_table m = (\<forall>w. fst (snd (m w)) = fst w)"

definition preserving :: "('f, 'a) stmt \<Rightarrow> bool" where
  "preserving m = (\<forall>self H. \<exists>new. snd (m (self, H)) = (self, H @ new))"

definition returns_new :: "('f, addr) stmt \<Rightarrow> bool" where
  "returns_new m =
     (\<forall>w a. fst (m w) = Inr a \<longrightarrow> length (snd w) \<le> a \<and> a < length (snd (snd (m w))))"

text \<open>
  The two models side by side. \<open>lift\<close> turns the helpers of \<open>deps\<close>, functions of
  values, into helpers on the store: read the arguments, compute, allocate the result.
  \<open>snapshot\<close>, \<open>frame_at\<close> and \<open>agent_at\<close> read the values that \<open>rasterize\<close>
  takes as arguments out of the store.
\<close>

definition as_triple :: "'f vec \<Rightarrow> exn + 'f \<times> 'f \<times> 'f" where
  "as_triple v = (case v of [x, y, z] \<Rightarrow> Inr (x, y, z) | _ \<Rightarrow> Inl ValueError)"

definition as_pair :: "'f vec \<Rightarrow> exn + 'f \<times> 'f" where
  "as_pair v = (case v of [x, y] \<Rightarrow> Inr (x, y) | _ \<Rightarrow> Inl ValueError)"

definition returning ::
  "('a \<Rightarrow> 'f ndarray) \<Rightarrow> exn + 'a \<Rightarrow> 'f heap \<Rightarrow> (exn + addr) \<times> 'f heap" where
  "returning mk r H = (case r of Inl e \<Rightarrow> (Inl e, H) | Inr v \<Rightarrow> (Inr (length H), H @ [mk v]))"

definition lift :: "'f deps \<Rightarrow> 'f helpers" where
  "lift N =
     \<lparr>rotation33_as_yaw_st = (\<lambda>m H. (bindE (read_mat H m) (rotation33_as_yaw N), H)),
      world_to_image_pixels_matrix_st = (\<lambda>rs ps t y ec H.
        returning Mat
          (bindE (read_vec H ps) (\<lambda>ps'.
           bindE (read_vec H t) (\<lambda>t'.
           bindE (as_triple t') (\<lambda>t''.
           bindE (read_vec H ec) (\<lambda>ec'.
             world_to_image_pixels_matrix N rs ps' t'' y ec'))))) H),
      transform_point_st = (\<lambda>p m H.
        returning Vec
          (bindE (read_vec H p) (\<lambda>p'.
           bindE (read_mat H m) (\<lambda>m'. transform_point N p' m'))) H),
      get_sat_image_crop_scaled_st = (\<lambda>im rs c y ps s i H.
        returning Img
          (bindE (read_img H im) (\<lambda>im'.
           bindE (read_vec H c) (\<lambda>c'.
           bindE (read_vec H ps) (\<lambda>ps'.
             get_sat_image_crop_scaled N im' rs c' y ps' s i)))) H)\<rparr>"

definition snapshot :: "'f rasterizer \<Rightarrow> 'f heap \<Rightarrow> exn + 'f engine" where
  "snapshot self H =
     bindE (read_vec H (pixel_size_attr self)) (\<lambda>ps.
     bindE (read_vec H (ego_center_attr self)) (\<lambda>ec.
     bindE (read_img H (map_im_attr self)) (\<lambda>im.
     bindE (read_mat H (map_to_sat_attr self)) (\<lambda>m.
       Inr \<lparr>raster_size = raster_size_attr self,
            pixel_size = ps,
            ego_center = ec,
            map_im = im,
            map_to_sat = m,
            interpolation = interpolation_attr self,
            map_pixel_scale = map_pixel_scale_attr self\<rparr>))))"

definition frame_at :: "'f heap \<Rightarrow> frame_ref \<Rightarrow> exn + 'f frame" where
  "frame_at H r =
     bindE (read_vec H (ego_translation_at r)) (\<lambda>t.
     bindE (as_triple t) (\<lambda>t'.
     bindE (read_mat H (ego_rotation_at r)) (\<lambda>m.
       Inr \<lparr>ego_translation = t', ego_rotation = m\<rparr>)))"

definition agent_at :: "'f heap \<Rightarrow> 'f agent_ref \<Rightarrow> exn + 'f agent" where
  "agent_at H r =
     bindE (read_vec H (centroid_at r)) (\<lambda>c.
     bindE (as_pair c) (\<lambda>c'.
       Inr \<lparr>centroid = c', yaw = yaw_of r\<rparr>))"

subsection \<open>The loader\<close>

text \<open>
  \<^verbatim>\<open>_load_image_and_metadata(image_key, data_manager)\<close>. Its collaborators:
  \<^verbatim>\<open>data_manager.require\<close>, which resolves a key to a local path or raises;
  \<^verbatim>\<open>cv2.imread\<close>, which returns \<^verbatim>\<open>None\<close> (and never raises) for a file it cannot
  read or decode; \<^verbatim>\<open>open\<close>, which returns the file or raises; and \<^verbatim>\<open>json.load\<close>,
  which parses it or raises.
\<close>

record 'm storage =
  require :: "string \<Rightarrow> exn + string"
  imread :: "string \<Rightarrow> image option"
  open_r :: "string \<Rightarrow> exn + string"
  json_load :: "string \<Rightarrow> exn + 'm"

text \<open>
  \<^verbatim>\<open>os.path.splitext\<close> (posixpath): the extension starts at the last dot of the last
  path component, unless that component has only dots before it.
\<close>

definition rfind :: "string \<Rightarrow> char \<Rightarrow> int" where
  "rfind p c =
     (case List.find (\<lambda>i. p ! i = c) (rev [0..<length p]) of
        None \<Rightarrow> - 1
      | Some i \<Rightarrow> int i)"

function splitext_loop :: "string \<Rightarrow> int \<Rightarrow> int \<Rightarrow> string \<times> string" where
  "splitext_loop p filenameIndex dotIndex =
     (if filenameIndex < dotIndex then
        (if p ! nat filenameIndex \<noteq> CHR ''.''
         then (take (nat dotIndex) p, drop (nat dotIndex) p)
         else splitext_loop p (filenameIndex + 1) dotIndex)
      else (p, []))"
  by pat_completeness auto
termination
  by (relation "measure (\<lambda>(p, filenameIndex, dotIndex). nat (dotIndex - filenameIndex))") auto

definition splitext :: "string \<Rightarrow> string \<times> string" where
  "splitext p =
     (let sepIndex = rfind p (CHR ''/'');
          dotIndex = rfind p (CHR ''.'')
      in if dotIndex > sepIndex then splitext_loop p (sepIndex + 1) dotIndex else (p, []))"

text \<open>
  \<^verbatim>\<open>cv2.imread(image_path)[..., ::-1]\<close> subscripts the value \<^verbatim>\<open>imread\<close> returned:
  on \<^verbatim>\<open>None\<close> the subscript raises TypeError, on an array it reverses the last axis
  (BGR to RGB). The name \<^verbatim>\<open>image\<close> is bound only after the subscript, and the test
  \<^verbatim>\<open>image is None\<close> follows it.
\<close>

definition load_image_and_metadata :: "'m storage \<Rightarrow> string \<Rightarrow> exn + image \<times> 'm" where
  "load_image_and_metadata data_manager image_key =
     (let image_metadata_key = fst (splitext image_key) @ ''.json'' in
      bindE (require data_manager image_key) (\<lambda>image_path.
      bindE (require data_manager image_metadata_key) (\<lambda>image_metadata_path.
      bindE (case imread data_manager image_path of
               None \<Rightarrow> Inl TypeError
             | Some bgr \<Rightarrow> Inr (Some (map (map rev) bgr))) (\<lambda>image.
      case image of
        None \<Rightarrow> Inl FileNotFoundError
      | Some rgb \<Rightarrow>
          bindE (open_r data_manager image_metadata_path) (\<lambda>f.
          bindE (json_load data_manager f) (\<lambda>metadata.
            Inr (rgb, metadata)))))))"

subsection \<open>The composition of the crop center, in the words of the specification\<close>


subsection \<open>A worked example\<close>

text \<open>
  Modelled from the spec: the collaborators of its section 6, which are absent from
  the source, in a simple concrete form over the reals, and one scene. They serve to
  run the definitions above on an example and take no part in the statements about
  \<open>rasterize\<close>, which hold for every \<open>deps\<close>. The yaw is the angle of the
  rotation's first column; the raster transform moves the pose to
  \<open>raster_size * ego_center\<close>, heading right; the crop is an axis-aligned window around
  the center, for scenes with yaw 0 and equal scales.
\<close>

definition demo_yaw :: "real matrix \<Rightarrow> exn + real" where
  "demo_yaw m =
     (case m of
        [[a, b, c], [d, e, f], [g, h, i]] \<Rightarrow> Inr (arctan (d / a))
      | _ \<Rightarrow> Inl ValueError)"

definition demo_world_to_image ::
  "int \<times> int \<Rightarrow> real vec \<Rightarrow> real \<times> real \<times> real \<Rightarrow> real \<Rightarrow> real vec \<Rightarrow> exn + real matrix" where
  "demo_world_to_image rs px t y ratio =
     (case (rs, px, t, ratio) of
        ((w, h), [sx, sy], (tx, ty, tz), [rx, ry]) \<Rightarrow>
          Inr [[cos y / sx, sin y / sx, of_int w * rx - (cos y * tx + sin y * ty) / sx],
               [- sin y / sy, cos y / sy, of_int h * ry - (cos y * ty - sin y * tx) / sy],
               [0, 0, 1]]
      | _ \<Rightarrow> Inl ValueError)"

definition demo_inv :: "real matrix \<Rightarrow> exn + real matrix" where
  "demo_inv m =
     (case m of
        [[a, b, tx], [c, d, ty], [g, h, i]] \<Rightarrow>
          (if g = 0 \<and> h = 0 \<and> i = 1 \<and> a * d - b * c \<noteq> 0
           then Inr [[d / (a * d - b * c), - b / (a * d - b * c),
                      (b * ty - d * tx) / (a * d - b * c)],
                     [- c / (a * d - b * c), a / (a * d - b * c),
                      (c * tx - a * ty) / (a * d - b * c)],
                     [0, 0, 1]]
           else Inl LinAlgError)
      | _ \<Rightarrow> Inl LinAlgError)"

definition demo_transform_point :: "real vec \<Rightarrow> real matrix \<Rightarrow> exn + real vec" where
  "demo_transform_point p m =
     (if length m = Suc (length p)
      then Inr (map (\<lambda>row. sum_list (map (\<lambda>(a, b). a * b) (zip row (p @ [1]))))
                  (take (length p) m))
      else Inl AssertionError)"

definition demo_crop ::
  "image \<Rightarrow> int \<times> int \<Rightarrow> real vec \<Rightarrow> real \<Rightarrow> real vec \<Rightarrow> real \<Rightarrow> int \<Rightarrow> exn + image" where
  "demo_crop im rs c y px scale interp =
     (case (rs, c) of
        ((w, h), cx # cy # _) \<Rightarrow>
          (let x0 = \<lfloor>cx\<rfloor> - w div 2; y0 = \<lfloor>cy\<rfloor> - h div 2
           in if 0 \<le> x0 \<and> 0 \<le> y0 \<and> 0 \<le> w \<and> 0 \<le> h \<and> y0 + h \<le> int (length im)
                 \<and> list_all (\<lambda>row. x0 + w \<le> int (length row)) im
              then Inr (map (\<lambda>row. take (nat w) (drop (nat x0) row))
                          (take (nat h) (drop (nat y0) im)))
              else Inl ValueError)
      | _ \<Rightarrow> Inl ValueError)"

definition demo :: "real deps" where
  "demo =
     \<lparr>rotation33_as_yaw = demo_yaw,
      world_to_image_pixels_matrix = demo_world_to_image,
      transform_point = demo_transform_point,
      get_sat_image_crop_scaled = demo_crop,
      linalg_inv = demo_inv,
      linalg_norm = (\<lambda>v. sqrt (sum_list (map (\<lambda>x. x * x) v))),
      np_float = of_int,
      np_half = 1 / 2,
      np_mul = (*),
      np_add = (+),
      np_div = (/),
      np_neg = uminus\<rparr>"

definition demo_image :: image where
  "demo_image =
     [[[0, 0, 0], [0, 0, 0], [0, 0, 0], [0, 0, 0]],
      [[0, 0, 0], [255, 0, 0], [0, 255, 0], [0, 0, 0]],
      [[0, 0, 0], [0, 0, 255], [255, 255, 255], [0, 0, 0]],
      [[0, 0, 0], [0, 0, 0], [0, 0, 0], [0, 0, 0]]]"

definition demo_map_to_sat :: "real matrix" where
  "demo_map_to_sat = [[1, 0, 0, 0], [0, 1, 0, 0], [0, 0, 1, 0], [0, 0, 0, 1]]"

definition demo_engine :: "real engine" where
  "demo_engine =
     \<lparr>raster_size = (2, 2),
      pixel_size = [1, 1],
      ego_center = [1 / 2, 1 / 2],
      map_im = demo_image,
      map_to_sat = demo_map_to_sat,
      interpolation = 1,
      map_pixel_scale = 1\<rparr>"

definition demo_frame :: "real frame" where
  "demo_frame =
     \<lparr>ego_translation = (2, 2, 10),
      ego_rotation = [[1, 0, 0], [0, 1, 0], [0, 0, 1]]\<rparr>"

definition demo_agent :: "real agent" where
  "demo_agent = \<lparr>centroid = (2, 2), yaw = 0\<rparr>"

definition demo_raw :: image where
  "demo_raw = [[[255, 0, 0], [0, 255, 0]], [[0, 0, 255], [255, 255, 255]]]"

definition demo_out :: fimage where
  "demo_out = [[[0, 0, 1], [1, 1, 1]], [[1, 0, 0], [0, 1, 0]]]"

text \<open>
  Modelled from the spec: the same scene in the store. The arrays of the object are
  the buffers 0 to 3, those of the frame 4 and 5, the agent's centroid is buffer 6; the
  helpers are the lifted ones of \<open>demo\<close>. \<open>scaled_heap\<close> is that store with a
  calibration that doubles the first two axes, whose pixel scale is \<open>1 / 2\<close>;
  \<open>short_heap\<close> has a calibration of one row; in \<open>flat_heap\<close> the pixel size is
  zero, which makes the raster transform singular.
  \<open>careless\<close> is a set of helpers outside the contract \<open>read_only\<close>: its crop
  empties the image it is handed, in place, and returns that same array.
\<close>

definition demo_heap :: "real heap" where
  "demo_heap =
     [Vec [1, 1], Vec [1 / 2, 1 / 2], Img demo_image, Mat demo_map_to_sat,
      Vec [2, 2, 10], Mat [[1, 0, 0], [0, 1, 0], [0, 0, 1]], Vec [2, 2]]"

definition demo_rasterizer :: "real rasterizer" where
  "demo_rasterizer =
     \<lparr>raster_size_attr = (2, 2),
      pixel_size_attr = 0,
      ego_center_attr = 1,
      map_im_attr = 2,
      map_to_sat_attr = 3,
      interpolation_attr = 1,
      map_pixel_scale_attr = 1\<rparr>"

definition demo_frame_ref :: frame_ref where
  "demo_frame_ref = \<lparr>ego_translation_at = 4, ego_rotation_at = 5\<rparr>"

definition demo_agent_ref :: "real agent_ref" where
  "demo_agent_ref = \<lparr>centroid_at = 6, yaw_of = 0\<rparr>"

definition scaled_map_to_sat :: "real matrix" where
  "scaled_map_to_sat = [[2, 0, 0, 0], [0, 2, 0, 0], [0, 0, 1, 0], [0, 0, 0, 1]]"

definition scaled_heap :: "real heap" where
  "scaled_heap = demo_heap[3 := Mat scaled_map_to_sat]"

definition flat_heap :: "real heap" where
  "flat_heap = demo_heap[0 := Vec [0, 0]]"

definition short_heap :: "real heap" where
  "short_heap = demo_heap[3 := Mat [[1, 0, 0, 0]]]"

definition careless :: "real helpers" where
  "careless =
     \<lparr>rotation33_as_yaw_st = (\<lambda>m H. (Inr 0, H)),
      world_to_image_pixels_matrix_st = (\<lambda>rs ps t y ec H. (Inr 5, H)),
      transform_point_st = (\<lambda>p m H. (Inr 4, H)),
      get_sat_image_crop_scaled_st = (\<lambda>im rs c y ps s i H. (Inr im, H[im := Img []]))\<rparr>"

subsection \<open>An example with scalars that carry their dtype\<close>












text \<open>
  A store with an image file that exists but does not decode, beside a good metadata
  file.
\<close>

definition corrupt_store :: "string storage" where
  "corrupt_store =
     \<lparr>require = (\<lambda>key. if key = ''maps/sat.png'' \<or> key = ''maps/sat.json''
                        then Inr (''/data/'' @ key) else Inl FileNotFoundError),
      imread = (\<lambda>path. None),
      open_r = (\<lambda>path. if path = ''/data/maps/sat.json'' then Inr ''{}''
                       else Inl FileNotFoundError),
      json_load = (\<lambda>f. if f = ''{}'' then Inr [] else Inl JSONDecodeError)\<rparr>"

section \<open>Proofs\<close>

subsection \<open>Sequencing\<close>

lemma bindE_Inr_iff: "bindE r k = Inr v \<longleftrightarrow> (\<exists>x. r = Inr x \<and> k x = Inr v)"
  by (cases r) (simp_all add: bindE_def)

lemma bindE_Inr: "bindE (Inr x) k = k x"
  by (simp add: bindE_def)

lemma bindE_Inl: "bindE (Inl e) k = Inl e"
  by (simp add: bindE_def)

lemma first_Inr_iff: "first xs = Inr x \<longleftrightarrow> (\<exists>rest. xs = x # rest)"
  by (cases xs) (auto simp: first_def)

subsection \<open>Rounding stays within integer bounds\<close>

text \<open>
  The grid of a format holds every integer below \<open>2 ^ prec\<close>, so rounding a
  nonnegative value cannot cross such an integer.
\<close>

lemma fl_ulp_pos: "0 < fl_ulp d x"
  by (simp add: fl_ulp_def)

lemma round_even_le: "x \<le> of_int n \<Longrightarrow> round_even x \<le> n"
  unfolding round_even_def Let_def
  by (auto simp: not_less) linarith+

lemma round_even_ge: "of_int n \<le> x \<Longrightarrow> n \<le> round_even x"
proof -
  assume "of_int n \<le> x"
  then have "n \<le> \<lfloor>x\<rfloor>" by (simp add: le_floor_iff)
  then show ?thesis unfolding round_even_def Let_def by auto
qed

lemma expo_up_le: "x < 2 ^ Suc k \<Longrightarrow> expo_up x \<le> int k"
proof (induction k arbitrary: x)
  case 0
  then show ?case by (subst expo_up.simps) simp
next
  case (Suc k)
  show ?case
  proof (cases "x < 2")
    case True
    then show ?thesis by (subst expo_up.simps) simp
  next
    case False
    from Suc.prems have "x / 2 < 2 ^ Suc k" by simp
    from Suc.IH [OF this] False show ?thesis by (subst expo_up.simps) simp
  qed
qed

lemma expo_down_le: "expo_down n x \<le> 0"
proof (induction n arbitrary: x)
  case 0
  show ?case by simp
next
  case (Suc n)
  have "expo_down n (2 * x) \<le> 0" by (rule Suc.IH)
  then show ?case by simp
qed

lemma fl_expo_le: "\<bar>x\<bar> < 2 ^ Suc k \<Longrightarrow> fl_expo d x \<le> int k"
  unfolding fl_expo_def using expo_up_le [of "\<bar>x\<bar>" k] expo_down_le [of "nat (- emin d)" "\<bar>x\<bar>"]
  by auto

lemma prec_pos: "0 < prec d"
  by (cases d) simp_all

lemma fl_round_nonneg: "0 \<le> x \<Longrightarrow> 0 \<le> fl_round d x"
proof -
  assume "0 \<le> x"
  then have "of_int 0 \<le> x / fl_ulp d x" using fl_ulp_pos [of d x] by simp
  then have "0 \<le> round_even (x / fl_ulp d x)" by (rule round_even_ge)
  then show ?thesis unfolding fl_round_def using fl_ulp_pos [of d x] by simp
qed

lemma fl_round_le_int:
  assumes x: "0 \<le> x" "x \<le> of_int b" and b: "b < 2 ^ prec d"
  shows "fl_round d x \<le> of_int b"
proof -
  obtain k where k: "prec d = Suc k" using prec_pos [of d] by (cases "prec d") auto
  have "x < 2 ^ Suc k"
  proof -
    have "(of_int b :: real) < of_int (2 ^ prec d)" using b by (simp only: of_int_less_iff)
    then show ?thesis using x k by simp
  qed
  then have e: "fl_expo d x \<le> int k" using x fl_expo_le [of x k d] by simp
  define j where "j = nat (int k - fl_expo d x)"
  have u: "fl_ulp d x * 2 ^ j = 1"
  proof -
    have "fl_ulp d x = 2 powi (- int j)" using e k by (simp add: fl_ulp_def j_def)
    then show ?thesis by (simp add: power_int_minus field_simps)
  qed
  have "x / fl_ulp d x = x * 2 ^ j" using u fl_ulp_pos [of d x] by (simp add: field_simps)
  also have "\<dots> \<le> of_int b * 2 ^ j" using x by simp
  also have "\<dots> = of_int (b * 2 ^ j)" by simp
  finally have "round_even (x / fl_ulp d x) \<le> b * 2 ^ j" by (rule round_even_le)
  then have "(of_int (round_even (x / fl_ulp d x)) :: real) \<le> of_int (b * 2 ^ j)"
    by (simp only: of_int_le_iff)
  then have "fl_round d x \<le> of_int (b * 2 ^ j) * fl_ulp d x"
    unfolding fl_round_def using fl_ulp_pos [of d x] by (simp only: mult_le_cancel_right_pos)
  also have "\<dots> = of_int b * (fl_ulp d x * 2 ^ j)" by simp
  finally show ?thesis using u by simp
qed

lemma normalize_px_range: "0 \<le> normalize_px v \<and> normalize_px v \<le> 1"
proof -
  have "unat v < 256" using unsigned_less [of v] by simp
  then have "unat v \<le> 255" by simp
  then have "real (unat v) \<le> real 255" by (simp only: of_nat_le_iff)
  then have le: "real (unat v) / 255 \<le> of_int 1" by simp
  have nn: "0 \<le> real (unat v) / 255"
    by (intro divide_nonneg_nonneg of_nat_0_le_iff) simp
  have "fl_round Float32 (real (unat v) / 255) \<le> of_int 1"
    by (rule fl_round_le_int [OF nn le]) simp
  then show ?thesis
    unfolding normalize_px_def using fl_round_nonneg [OF nn, of Float32] by simp
qed

lemma fl_round_zero: "fl_round d 0 = 0"
  by (simp add: fl_round_def round_even_def)

lemma fl_round_one: "fl_round Float32 1 = 1"
  by (simp add: fl_round_def fl_ulp_def fl_expo_def round_even_def power_int_minus
      expo_up.simps)

lemma normalize_px_0: "normalize_px 0 = 0"
  by (simp add: normalize_px_def fl_round_zero)

lemma normalize_px_255: "normalize_px 255 = 1"
  by (simp add: normalize_px_def fl_round_one)

subsection \<open>Rounding within a binade\<close>

text \<open>
  Between \<open>2 ^ e\<close> and \<open>2 ^ (e + 1)\<close> the exponent is \<open>e\<close>, so rounding is
  rounding to a multiple of \<open>2 ^ (e - (p - 1))\<close>. With that, the float32 quotient of a
  byte by 255, multiplied by 255 in float32, is the byte again: the two rounding errors
  never add up to a step of the grid around the byte.
\<close>

lemma round_even_err: "\<bar>real_of_int (round_even x) - x\<bar> \<le> 1 / 2"
  unfolding round_even_def Let_def by (auto simp: abs_if) linarith+

lemma round_even_near:
  assumes "\<bar>t\<bar> < 1 / 2"
  shows "round_even (of_int K + t) = K"
proof (cases "0 \<le> t")
  case True
  with assms have f: "\<lfloor>of_int K + t\<rfloor> = K" by (simp add: floor_unique)
  show ?thesis unfolding round_even_def Let_def f using assms True by simp
next
  case False
  with assms have f: "\<lfloor>of_int K + t\<rfloor> = K - 1" by (intro floor_unique) auto
  show ?thesis unfolding round_even_def Let_def f using assms False by simp
qed

lemma expo_up_eq: "2 ^ n \<le> x \<Longrightarrow> x < 2 ^ Suc n \<Longrightarrow> expo_up x = int n"
proof (induction n arbitrary: x)
  case 0
  then show ?case by (subst expo_up.simps) simp
next
  case (Suc n)
  have "(2::real) \<le> 2 ^ Suc n" by simp
  with Suc.prems have nlt: "\<not> x < 2" by linarith
  from Suc.prems have "2 ^ n \<le> x / 2" "x / 2 < 2 ^ Suc n" by simp_all
  then have "expo_up (x / 2) = int n" by (rule Suc.IH)
  with nlt show ?case by (subst expo_up.simps) simp
qed

lemma expo_down_one: "1 \<le> x \<Longrightarrow> expo_down n x = 0"
  by (cases n) simp_all

lemma expo_down_eq:
  "0 < m \<Longrightarrow> m \<le> n \<Longrightarrow> 1 / 2 ^ m \<le> x \<Longrightarrow> x < 1 / 2 ^ (m - 1) \<Longrightarrow>
   expo_down n x = - int m"
proof (induction n arbitrary: x m)
  case 0
  then show ?case by simp
next
  case (Suc n)
  have "(1::real) / 2 ^ (m - 1) \<le> 1" by simp
  with Suc.prems have nge: "\<not> 1 \<le> x" by linarith
  show ?case
  proof (cases "m = 1")
    case True
    with Suc.prems have "1 \<le> 2 * x" by simp
    then have "expo_down n (2 * x) = 0" by (rule expo_down_one)
    with nge True show ?thesis by simp
  next
    case False
    with Suc.prems obtain m' where m: "m = Suc m'" "0 < m'" by (cases m) auto
    from Suc.prems m have "1 / 2 ^ m' \<le> 2 * x" by (simp add: field_simps)
    moreover from Suc.prems m have "2 * x < 1 / 2 ^ (m' - 1)"
      by (cases m') (simp_all add: field_simps)
    moreover from Suc.prems m have "m' \<le> n" by simp
    ultimately have "expo_down n (2 * x) = - int m'" using m(2) Suc.IH by blast
    with nge m show ?thesis by simp
  qed
qed

lemma fl_expo_eq:
  assumes lo: "2 powi e \<le> x" and hi: "x < 2 powi (e + 1)" and em: "emin d \<le> e"
  shows "fl_expo d x = e"
proof -
  have pos: "0 < x" using lo by (rule less_le_trans [rotated]) simp
  show ?thesis
  proof (cases "0 \<le> e")
    case True
    then obtain n where n: "e = int n" using nonneg_int_cases by blast
    have "e + 1 = int (Suc n)" using n by simp
    with lo hi n have b: "2 ^ n \<le> x" "x < 2 ^ Suc n"
      by (simp_all only: power_int_of_nat)
    have "(1::real) \<le> 2 ^ n" by simp
    with b have "1 \<le> \<bar>x\<bar>" by linarith
    with b pos show ?thesis unfolding fl_expo_def n by (simp add: expo_up_eq)
  next
    case False
    define m where "m = nat (- e)"
    have m: "0 < m" "e = - int m" using False by (simp_all add: m_def)
    have e1: "e + 1 = - int (m - 1)" using m by auto
    have lo': "1 / 2 ^ m \<le> x" using lo unfolding m(2) by (simp add: power_int_minus_divide)
    have hi': "x < 1 / 2 ^ (m - 1)"
      using hi unfolding e1 by (simp add: power_int_minus_divide)
    have "(1::real) / 2 ^ (m - 1) \<le> 1" by simp
    with hi' pos have n1: "\<not> 1 \<le> \<bar>x\<bar>" by linarith
    have le: "m \<le> nat (- emin d)" using em m by linarith
    have "expo_down (nat (- emin d)) x = - int m"
      by (rule expo_down_eq [OF m(1) le lo' hi'])
    with n1 pos m show ?thesis unfolding fl_expo_def by simp
  qed
qed

lemma fl_round_binade:
  assumes "2 powi e \<le> x" and "x < 2 powi (e + 1)" and "emin d \<le> e"
  shows "fl_round d x =
         of_int (round_even (x / 2 powi (e - (int (prec d) - 1)))) * 2 powi (e - (int (prec d) - 1))"
  unfolding fl_round_def fl_ulp_def fl_expo_eq [OF assms] ..

lemma round_even_scale:
  fixes K :: int
  defines "M \<equiv> round_even (256 * of_int K / 255)"
  shows "\<bar>255 * M - 256 * K\<bar> \<le> 127" and "round_even (255 * of_int M / 256) = K"
proof -
  have "\<bar>real_of_int M - 256 * of_int K / 255\<bar> \<le> 1 / 2"
    unfolding M_def by (rule round_even_err)
  then have "\<bar>real_of_int (255 * M - 256 * K)\<bar> \<le> 255 / 2"
    by (simp add: abs_le_iff field_simps)
  then have "real_of_int \<bar>255 * M - 256 * K\<bar> < real_of_int 128" by simp
  then have "\<bar>255 * M - 256 * K\<bar> < 128" by (simp only: of_int_less_iff)
  then show d: "\<bar>255 * M - 256 * K\<bar> \<le> 127" by simp
  define t :: real where "t = of_int (255 * M - 256 * K) / 256"
  have "real_of_int \<bar>255 * M - 256 * K\<bar> \<le> real_of_int 127"
    using d by (simp only: of_int_le_iff)
  then have t: "\<bar>t\<bar> < 1 / 2" by (simp add: t_def)
  have eq: "255 * real_of_int M / 256 = of_int K + t" by (simp add: t_def field_simps)
  show "round_even (255 * of_int M / 256) = K"
    by (simp only: eq round_even_near [OF t])
qed

lemma roundtrip_case:
  fixes k :: nat and e :: int
  assumes e: "- 8 \<le> e" "e \<le> - 1"
    and xlo: "2 powi e \<le> real k / 255" and xhi: "real k / 255 < 2 powi (e + 1)"
    and ylo: "2 powi (e + 8) + 1 \<le> real k \<or> real k = 2 powi (e + 8)"
    and yhi: "real k + 1 \<le> 2 powi (e + 9)"
  shows "fl_round Float32 (fl_round Float32 (real k / 255) * 255) = real k"
proof -
  define u :: real where "u = 2 powi (e - 23)"
  define K :: int where "K = int k * 2 ^ nat (15 - e)"
  define M where "M = round_even (256 * of_int K / 255)"
  define y where "y = of_int M * u * 255"
  have upos: "0 < u" by (simp add: u_def)
  have p1: "2 powi (e - 15) = 256 * u"
  proof -
    have "(2::real) powi (8 + (e - 23)) = 2 powi 8 * 2 powi (e - 23)"
      by (rule power_int_add) simp
    moreover have "8 + (e - 23) = e - 15" by simp
    ultimately show ?thesis by (simp add: u_def)
  qed
  have p2: "real_of_int (2 ^ nat (15 - e)) * 2 powi (e - 15) = 1"
  proof -
    have "(2::real) powi ((15 - e) + (e - 15)) = 2 powi (15 - e) * 2 powi (e - 15)"
      by (rule power_int_add) simp
    moreover have "(2::real) powi (15 - e) = 2 ^ nat (15 - e)"
      using e by (intro power_int_nonneg_exp) simp
    ultimately show ?thesis by simp
  qed
  have Ku: "real_of_int K * (256 * u) = real k"
  proof -
    have "real_of_int K * (256 * u) = real k * (real_of_int (2 ^ nat (15 - e)) * 2 powi (e - 15))"
      unfolding p1 K_def by simp
    then show ?thesis unfolding p2 by simp
  qed
  have small: "127 * u < 1"
  proof -
    have "u \<le> 2 powi (- 24)" unfolding u_def using e by (intro power_int_increasing) simp_all
    also have "\<dots> = 1 / 2 ^ 24" by (simp add: power_int_minus_divide)
    finally show ?thesis by simp
  qed
  have d: "\<bar>255 * M - 256 * K\<bar> \<le> 127" and r: "round_even (255 * of_int M / 256) = K"
    unfolding M_def by (rule round_even_scale)+
  have xu: "real k / 255 / u = 256 * of_int K / 255"
    using Ku upos by (simp add: field_simps)
  have b: "fl_round Float32 (real k / 255) = of_int (round_even (real k / 255 / u)) * u"
    unfolding u_def using fl_round_binade [OF xlo xhi, of Float32] e by simp
  have q: "fl_round Float32 (real k / 255) = of_int M * u"
    unfolding b xu M_def ..
  define z where "z = real_of_int (255 * M - 256 * K) * u"
  have y_eq: "y = real k + z"
    using Ku by (simp add: y_def z_def algebra_simps)
  have dr: "\<bar>real_of_int (255 * M - 256 * K)\<bar> \<le> 127"
  proof -
    have "real_of_int \<bar>255 * M - 256 * K\<bar> \<le> real_of_int 127"
      using d by (simp only: of_int_le_iff)
    then show ?thesis by simp
  qed
  have du: "\<bar>z\<bar> < 1"
  proof -
    have "\<bar>z\<bar> = \<bar>real_of_int (255 * M - 256 * K)\<bar> * u"
      unfolding z_def using upos by (simp add: abs_mult)
    also have "\<dots> \<le> 127 * u" using dr upos by (intro mult_right_mono) simp_all
    finally show ?thesis using small by linarith
  qed
  have yhi': "y < 2 powi (e + 8 + 1)"
  proof -
    have "e + 8 + 1 = e + 9" by simp
    then have "real k + 1 \<le> 2 powi (e + 8 + 1)" using yhi by (simp only:)
    with du show ?thesis unfolding y_eq by linarith
  qed
  have ylo': "2 powi (e + 8) \<le> y"
    using ylo
  proof
    assume "2 powi (e + 8) + 1 \<le> real k"
    with du show ?thesis unfolding y_eq by linarith
  next
    assume k: "real k = 2 powi (e + 8)"
    have "(2::real) powi ((e + 8) + (15 - e)) = 2 powi (e + 8) * 2 powi (15 - e)"
      by (rule power_int_add) simp
    moreover have "(2::real) powi (15 - e) = 2 ^ nat (15 - e)"
      using e by (intro power_int_nonneg_exp) simp
    moreover have "(e + 8) + (15 - e) = 23" by simp
    ultimately have "real_of_int K = real_of_int (2 ^ 23)"
      unfolding K_def using k by simp
    then have K23: "K = 2 ^ 23" by (simp only: of_int_eq_iff)
    have "M = 8421505" unfolding M_def K23 by (simp add: round_even_def)
    then have "0 \<le> real_of_int (255 * M - 256 * K)" unfolding K23 by simp
    then have "0 \<le> z" unfolding z_def using upos by simp
    then show ?thesis unfolding y_eq k by simp
  qed
  have yU: "y / (256 * u) = 255 * of_int M / 256"
    unfolding y_def using upos by simp
  have "fl_round Float32 y = of_int (round_even (y / 2 powi (e - 15))) * 2 powi (e - 15)"
  proof -
    have "e + 8 - (int (prec Float32) - 1) = e - 15" by simp
    with fl_round_binade [OF ylo' yhi', of Float32] e show ?thesis by simp
  qed
  also have "\<dots> = of_int K * (256 * u)" unfolding p1 yU r ..
  also have "\<dots> = real k" by (rule Ku)
  finally show ?thesis unfolding q y_def by (simp add: mult.assoc)
qed

lemma roundtrip_range:
  fixes k L :: nat and e :: int
  assumes e: "- 8 \<le> e" "e \<le> - 1"
    and L: "real L = 2 powi (e + 8)" and L128: "L \<le> 128"
    and k: "L \<le> k" "k < 2 * L" "k \<le> 254"
  shows "fl_round Float32 (fl_round Float32 (real k / 255) * 255) = real k"
proof (rule roundtrip_case [OF e])
  have a8: "(2::real) powi (e + 8) = 2 powi e * 2 powi 8"
    by (rule power_int_add) simp
  have a1: "(2::real) powi (e + 1) = 2 powi e * 2 powi 1"
    by (rule power_int_add) simp
  have a9: "(2::real) powi (e + 8 + 1) = 2 powi (e + 8) * 2 powi 1"
    by (rule power_int_add) simp
  have pe: "2 powi e = real L / 256" unfolding L a8 by simp
  have "255 * L \<le> 256 * k" using k by linarith
  then have "real (255 * L) \<le> real (256 * k)" by (simp only: of_nat_le_iff)
  then show "2 powi e \<le> real k / 255" unfolding pe by simp
  have "128 * k < 255 * L" using k L128 by linarith
  then have "real (128 * k) < real (255 * L)" by (simp only: of_nat_less_iff)
  then show "real k / 255 < 2 powi (e + 1)" unfolding a1 pe by simp
  have "L + 1 \<le> k \<or> k = L" using k by linarith
  then have "real (L + 1) \<le> real k \<or> real k = real L"
    by (simp only: of_nat_le_iff of_nat_eq_iff)
  then show "2 powi (e + 8) + 1 \<le> real k \<or> real k = 2 powi (e + 8)"
    unfolding L [symmetric] by (simp add: algebra_simps)
  have "k + 1 \<le> 2 * L" using k by linarith
  then have kl: "real (k + 1) \<le> real (2 * L)" by (simp only: of_nat_le_iff)
  have "e + 9 = e + 8 + 1" by simp
  then have "(2::real) powi (e + 9) = 2 powi (e + 8 + 1)" by (simp only:)
  also have "\<dots> = 2 * real L" unfolding a9 L by simp
  finally have a9': "(2::real) powi (e + 9) = 2 * real L" .
  show "real k + 1 \<le> 2 powi (e + 9)"
    unfolding a9' using kl by simp
qed

lemma round_even_of_int: "round_even (of_int n) = n"
  using round_even_near [of 0 n] by simp

lemma fl_round_255: "fl_round Float32 255 = 255"
proof -
  have "fl_round Float32 255 =
        of_int (round_even (255 / 2 powi (7 - (int (prec Float32) - 1)))) *
        2 powi (7 - (int (prec Float32) - 1))"
    by (rule fl_round_binade) simp_all
  moreover have "(255::real) / 2 powi (7 - (int (prec Float32) - 1)) = of_int 16711680"
    by (simp add: power_int_minus_divide)
  ultimately show ?thesis
    by (simp only: round_even_of_int) (simp add: power_int_minus_divide)
qed

lemma roundtrip_byte:
  assumes "k \<le> 255"
  shows "fl_round Float32 (fl_round Float32 (real k / 255) * 255) = real k"
proof -
  consider "k = 0" | "k = 255" | "1 \<le> k \<and> k < 2" | "2 \<le> k \<and> k < 4" | "4 \<le> k \<and> k < 8"
    | "8 \<le> k \<and> k < 16" | "16 \<le> k \<and> k < 32" | "32 \<le> k \<and> k < 64"
    | "64 \<le> k \<and> k < 128" | "128 \<le> k \<and> k < 255"
    using assms by linarith
  then show ?thesis
  proof cases
    case 1
    then show ?thesis by (simp add: fl_round_zero)
  next
    case 2
    then show ?thesis by (simp add: fl_round_one fl_round_255)
  next
    case 3
    then show ?thesis by (intro roundtrip_range [where e = "- 8" and L = 1]) simp_all
  next
    case 4
    then show ?thesis by (intro roundtrip_range [where e = "- 7" and L = 2]) simp_all
  next
    case 5
    then show ?thesis by (intro roundtrip_range [where e = "- 6" and L = 4]) simp_all
  next
    case 6
    then show ?thesis by (intro roundtrip_range [where e = "- 5" and L = 8]) simp_all
  next
    case 7
    then show ?thesis by (intro roundtrip_range [where e = "- 4" and L = 16]) simp_all
  next
    case 8
    then show ?thesis by (intro roundtrip_range [where e = "- 3" and L = 32]) simp_all
  next
    case 9
    then show ?thesis by (intro roundtrip_range [where e = "- 2" and L = 64]) simp_all
  next
    case 10
    then show ?thesis by (intro roundtrip_range [where e = "- 1" and L = 128]) simp_all
  qed
qed

lemma trunc_of_nat: "trunc (real n) = int n"
  by (simp add: trunc_def)

lemma astype_uint8_of_nat: "n < 256 \<Longrightarrow> astype_uint8 (real n) = Some (of_nat n)"
  by (simp add: astype_uint8_def trunc_of_nat)

lemma to_rgb_normalize_px:
  "astype_uint8 (fl_round Float32 (normalize_px v * 255)) = Some v"
proof -
  have lt: "unat v < 256" using unsigned_less [of v] by simp
  then have le: "unat v \<le> 255" by simp
  have eq: "fl_round Float32 (normalize_px v * 255) = real (unat v)"
    unfolding normalize_px_def by (rule roundtrip_byte [OF le])
  have "astype_uint8 (real (unat v)) = Some (of_nat (unat v))"
    by (rule astype_uint8_of_nat [OF lt])
  then show ?thesis unfolding eq by simp
qed

lemma to_rgb_byte:
  assumes "0 \<le> x" and "x \<le> 1"
  shows "astype_uint8 (fl_round d (x * 255)) = Some (word_of_int \<lfloor>fl_round d (x * 255)\<rfloor>)"
proof -
  have nn: "0 \<le> x * 255" using assms by simp
  have le: "x * 255 \<le> of_int 255" using assms by simp
  have "(255::int) < 2 ^ prec d" by (cases d) simp_all
  then have hi: "fl_round d (x * 255) \<le> of_int 255" by (rule fl_round_le_int [OF nn le])
  have lo: "0 \<le> fl_round d (x * 255)" by (rule fl_round_nonneg [OF nn])
  from hi have "\<lfloor>fl_round d (x * 255)\<rfloor> \<le> 255" by (simp add: floor_le_iff)
  moreover from lo have "0 \<le> \<lfloor>fl_round d (x * 255)\<rfloor>" by simp
  ultimately show ?thesis using lo by (simp add: astype_uint8_def trunc_def)
qed

lemma fl_round_quarter: "fl_round Float32 (255 / 4) = 255 / 4"
proof -
  have "fl_round Float32 (255 / 4) =
        of_int (round_even (255 / 4 / 2 powi (5 - (int (prec Float32) - 1)))) *
        2 powi (5 - (int (prec Float32) - 1))"
    by (rule fl_round_binade) simp_all
  moreover have "(255::real) / 4 / 2 powi (5 - (int (prec Float32) - 1)) = of_int 16711680"
    by (simp add: power_int_minus_divide)
  ultimately show ?thesis
    by (simp only: round_even_of_int) (simp add: power_int_minus_divide)
qed

subsection \<open>When rasterize returns\<close>

text \<open>
  A call returns an image exactly when every step of the body returns; the image is
  then the flipped and normalized result of the crop.
\<close>

lemma rasterize_None_Inr:
  "rasterize N self hf ha None = Inr out \<longleftrightarrow>
   (\<exists>f0 rest y w inverse world c raw.
      hf = f0 # rest \<and>
      rotation33_as_yaw N (ego_rotation f0) = Inr y \<and>
      world_to_image_pixels_matrix N (raster_size self) (pixel_size self)
        (ego_translation f0) y (ego_center self) = Inr w \<and>
      linalg_inv N w = Inr inverse \<and>
      transform_point N
        [np_mul N (np_float N (fst (raster_size self))) (np_half N),
         np_mul N (np_float N (snd (raster_size self))) (np_half N)] inverse = Inr world \<and>
      transform_point N (world @ [third (ego_translation f0)]) (map_to_sat self) = Inr c \<and>
      get_sat_image_crop_scaled N (map_im self) (raster_size self) c (np_neg N y)
        (pixel_size self) (map_pixel_scale self) (interpolation self) = Inr raw \<and>
      out = map (map (map normalize_px)) (rev raw))"
proof (cases hf)
  case Nil
  then show ?thesis
    by (simp add: rasterize_def first_def bindE_def)
next
  case (Cons f0 rest)
  show ?thesis
  proof (cases "rotation33_as_yaw N (ego_rotation f0)")
    case (Inl e)
    then show ?thesis
      unfolding rasterize_def Cons
      by (simp add: first_def bindE_Inr bindE_Inl)
  next
    case (Inr y0)
    then show ?thesis
      unfolding rasterize_def Cons
      by (simp add: first_def bindE_Inr bindE_Inr_iff Let_def) blast
  qed
qed

lemma rasterize_Some_Inr:
  "rasterize N self hf ha (Some a) = Inr out \<longleftrightarrow>
   (\<exists>f0 rest w inverse world c raw.
      hf = f0 # rest \<and>
      world_to_image_pixels_matrix N (raster_size self) (pixel_size self)
        (np_append2 (centroid a) (third (ego_translation f0))) (yaw a) (ego_center self)
        = Inr w \<and>
      linalg_inv N w = Inr inverse \<and>
      transform_point N
        [np_mul N (np_float N (fst (raster_size self))) (np_half N),
         np_mul N (np_float N (snd (raster_size self))) (np_half N)] inverse = Inr world \<and>
      transform_point N
        (world @ [third (np_append2 (centroid a) (third (ego_translation f0)))])
        (map_to_sat self) = Inr c \<and>
      get_sat_image_crop_scaled N (map_im self) (raster_size self) c (np_neg N (yaw a))
        (pixel_size self) (map_pixel_scale self) (interpolation self) = Inr raw \<and>
      out = map (map (map normalize_px)) (rev raw))"
proof (cases hf)
  case Nil
  then show ?thesis
    by (simp add: rasterize_def first_def bindE_def)
next
  case (Cons f0 rest)
  show ?thesis
    unfolding rasterize_def Cons
    by (simp add: first_def bindE_Inr bindE_Inr_iff Let_def) blast
qed

subsection \<open>The worked example, step by step\<close>

lemma demo_pose: "rotation33_as_yaw demo (ego_rotation demo_frame) = Inr 0"
  by (simp add: demo_def demo_yaw_def demo_frame_def)

lemma demo_w2i:
  "world_to_image_pixels_matrix demo (raster_size demo_engine) (pixel_size demo_engine)
     (2, 2, 10) 0 (ego_center demo_engine) = Inr [[1, 0, - 1], [0, 1, - 1], [0, 0, 1]]"
  by (simp add: demo_def demo_world_to_image_def demo_engine_def)

lemma demo_inverse:
  "linalg_inv demo [[1, 0, - 1], [0, 1, - 1], [0, 0, 1]] = Inr [[1, 0, 1], [0, 1, 1], [0, 0, 1]]"
  by (simp add: demo_def demo_inv_def)

lemma demo_world:
  "transform_point demo
     [np_mul demo (np_float demo (fst (raster_size demo_engine))) (np_half demo),
      np_mul demo (np_float demo (snd (raster_size demo_engine))) (np_half demo)]
     [[1, 0, 1], [0, 1, 1], [0, 0, 1]] = Inr [2, 2]"
  by (simp add: demo_def demo_transform_point_def demo_engine_def)

lemma demo_sat:
  "transform_point demo ([2, 2] @ [10]) (map_to_sat demo_engine) = Inr [2, 2, 10]"
  by (simp add: demo_def demo_transform_point_def demo_engine_def demo_map_to_sat_def)

lemma demo_cropped:
  "get_sat_image_crop_scaled demo (map_im demo_engine) (raster_size demo_engine) [2, 2, 10]
     (np_neg demo 0) (pixel_size demo_engine) (map_pixel_scale demo_engine)
     (interpolation demo_engine) = Inr demo_raw"
  by (simp add: demo_def demo_crop_def demo_engine_def demo_image_def demo_raw_def)

lemma demo_normalized: "map (map (map normalize_px)) (rev demo_raw) = demo_out"
  by (simp add: demo_raw_def demo_out_def normalize_px_0 normalize_px_255)

lemma demo_run: "rasterize demo demo_engine [demo_frame] [] None = Inr demo_out"
proof -
  have t: "ego_translation demo_frame = (2, 2, 10)" by (simp add: demo_frame_def)
  show ?thesis
    unfolding rasterize_None_Inr
    using demo_pose demo_w2i demo_inverse demo_world demo_sat demo_cropped demo_normalized
    by (simp add: t third_def)
qed

lemma demo_run_agent:
  "rasterize demo demo_engine [demo_frame] [] (Some demo_agent) = Inr demo_out"
proof -
  have t: "np_append2 (centroid demo_agent) (third (ego_translation demo_frame)) = (2, 2, 10)"
    by (simp add: demo_agent_def demo_frame_def np_append2_def third_def)
  have y: "yaw demo_agent = 0" by (simp add: demo_agent_def)
  have z: "third (2 :: real, 2 :: real, 10 :: real) = 10" by (simp add: third_def)
  show ?thesis
    unfolding rasterize_Some_Inr
    using demo_w2i demo_inverse demo_world demo_sat demo_cropped demo_normalized
    by (simp add: t y z)
qed

subsection \<open>The crop center and the range of the output\<close>


lemma normalized_range:
  "\<forall>row \<in> set (map (map (map normalize_px)) im). \<forall>px \<in> set row. \<forall>x \<in> set px. 0 \<le> x \<and> x \<le> 1"
  using normalize_px_range by auto

subsection \<open>What a statement leaves as it was\<close>

text \<open>
  No statement of the method bodies assigns to an attribute, and no helper is handed the
  object: the attribute table survives every call, whatever the helpers do. A statement
  built from reads, allocations and calls of helpers that only allocate leaves every
  existing array alone as well; so do both method bodies and every sequence of steps of a
  client. The array that \<open>rasterize_st\<close> returns is
  allocated by its last statement.
\<close>

lemma keeps_table_eval: "keeps_table (eval r)"
  by (simp add: keeps_table_def eval_def)

lemma keeps_table_attr: "keeps_table (attr f)"
  by (simp add: keeps_table_def attr_def)

lemma keeps_table_fetch: "keeps_table (fetch rd a)"
  by (simp add: keeps_table_def fetch_def)

lemma keeps_table_alloc: "keeps_table (alloc v)"
  by (simp add: keeps_table_def alloc_def)

lemma keeps_table_call: "keeps_table (call c)"
  by (simp add: keeps_table_def call_def split: prod.split)

lemma keeps_table_bindS:
  assumes "keeps_table m" and "\<And>v. keeps_table (k v)"
  shows "keeps_table (bindS m k)"
  unfolding keeps_table_def
proof
  fix w :: "'a rasterizer \<times> 'a heap"
  obtain r w' where m: "m w = (r, w')" by (cases "m w")
  with assms(1) have t: "fst w' = fst w" unfolding keeps_table_def by (metis snd_conv)
  show "fst (snd (bindS m k w)) = fst w"
  proof (cases r)
    case (Inl e)
    with m t show ?thesis by (simp add: bindS_def)
  next
    case (Inr v)
    from assms(2) [of v] have "fst (snd (k v w')) = fst w'" unfolding keeps_table_def by blast
    with m t Inr show ?thesis by (simp add: bindS_def)
  qed
qed

lemma keeps_table_case_prod: "(\<And>a b. keeps_table (f a b)) \<Longrightarrow> keeps_table (case_prod f p)"
  by (cases p) simp

lemma keeps_table_case_option:
  "keeps_table n \<Longrightarrow> (\<And>a. keeps_table (s a)) \<Longrightarrow> keeps_table (case_option n s x)"
  by (cases x) simp_all

lemma rasterize_st_keeps_table:
  "keeps_table (rasterize_st L N history_frames history_agents agent)"
  unfolding rasterize_st_def
  by (intro keeps_table_bindS keeps_table_case_prod keeps_table_case_option keeps_table_eval
      keeps_table_attr keeps_table_fetch keeps_table_alloc keeps_table_call)

lemma to_rgb_st_keeps_table: "keeps_table (to_rgb_st in_im)"
  unfolding to_rgb_st_def
  by (intro keeps_table_bindS keeps_table_case_prod keeps_table_fetch keeps_table_alloc)

lemma invoke_keeps_table: "keeps_table (invoke L N c)"
  by (cases c) (simp_all add: rasterize_st_keeps_table to_rgb_st_keeps_table keeps_table_alloc)

lemma run_keeps_table: "fst (run L N cs w) = fst w"
proof (induction cs arbitrary: w)
  case Nil
  show ?case by simp
next
  case (Cons c cs)
  from invoke_keeps_table [of L N c] have "fst (snd (invoke L N c w)) = fst w"
    unfolding keeps_table_def by blast
  with Cons [of "snd (invoke L N c w)"] show ?case by simp
qed

lemma preserving_eval: "preserving (eval r)"
  by (simp add: preserving_def eval_def)

lemma preserving_attr: "preserving (attr f)"
  by (simp add: preserving_def attr_def)

lemma preserving_fetch: "preserving (fetch rd a)"
  by (simp add: preserving_def fetch_def)

lemma preserving_alloc: "preserving (alloc v)"
  by (simp add: preserving_def alloc_def)

lemma preserving_call: "only_allocates c \<Longrightarrow> preserving (call c)"
  by (auto simp: preserving_def call_def only_allocates_def split: prod.split) (metis snd_conv)

lemma preserving_bindS:
  assumes "preserving m" and "\<And>v. preserving (k v)"
  shows "preserving (bindS m k)"
  unfolding preserving_def
proof (intro allI)
  fix self H
  from assms(1) obtain new where m: "snd (m (self, H)) = (self, H @ new)"
    unfolding preserving_def by blast
  show "\<exists>new. snd (bindS m k (self, H)) = (self, H @ new)"
  proof (cases "fst (m (self, H))")
    case (Inl e)
    with m have "m (self, H) = (Inl e, (self, H @ new))" by (metis prod.collapse)
    then show ?thesis by (auto simp: bindS_def)
  next
    case (Inr v)
    with m have mm: "m (self, H) = (Inr v, (self, H @ new))" by (metis prod.collapse)
    from assms(2) [of v] obtain new' where
      "snd (k v (self, H @ new)) = (self, (H @ new) @ new')"
      unfolding preserving_def by blast
    with mm show ?thesis by (auto simp: bindS_def)
  qed
qed

lemma preserving_case_prod: "(\<And>a b. preserving (f a b)) \<Longrightarrow> preserving (case_prod f p)"
  by (cases p) simp

lemma preserving_case_option: "preserving n \<Longrightarrow> (\<And>a. preserving (s a)) \<Longrightarrow> preserving (case_option n s x)"
  by (cases x) simp_all

lemma rasterize_st_preserving:
  assumes "read_only L"
  shows "preserving (rasterize_st L N history_frames history_agents agent)"
proof -
  from assms have
    y: "\<And>m. only_allocates (rotation33_as_yaw_st L m)" and
    w: "\<And>rs ps t y ec. only_allocates (world_to_image_pixels_matrix_st L rs ps t y ec)" and
    p: "\<And>p m. only_allocates (transform_point_st L p m)" and
    c: "\<And>im rs c y ps s i. only_allocates (get_sat_image_crop_scaled_st L im rs c y ps s i)"
    unfolding read_only_def by blast+
  show ?thesis
    unfolding rasterize_st_def
    by (intro preserving_bindS preserving_case_prod preserving_case_option preserving_eval preserving_attr preserving_fetch
        preserving_alloc preserving_call y w p c)
qed

lemma to_rgb_st_preserving: "preserving (to_rgb_st in_im)"
  unfolding to_rgb_st_def
  by (intro preserving_bindS preserving_case_prod preserving_fetch preserving_alloc)

lemma invoke_preserving: "read_only L \<Longrightarrow> preserving (invoke L N c)"
  by (cases c) (simp_all add: rasterize_st_preserving to_rgb_st_preserving preserving_alloc)

lemma run_preserving:
  assumes "read_only L"
  shows "\<exists>new. run L N cs (self, H) = (self, H @ new)"
proof (induction cs arbitrary: H)
  case Nil
  show ?case by simp
next
  case (Cons c cs)
  from invoke_preserving [OF assms, of N c] obtain new where
    "snd (invoke L N c (self, H)) = (self, H @ new)"
    unfolding preserving_def by blast
  moreover from Cons [of "H @ new"] obtain new' where
    "run L N cs (self, H @ new) = (self, (H @ new) @ new')" by blast
  ultimately show ?case by simp
qed

lemma returns_new_alloc: "returns_new (alloc v)"
  by (simp add: returns_new_def alloc_def)

lemma returns_new_bindS:
  assumes "preserving m" and "\<And>v. returns_new (k v)"
  shows "returns_new (bindS m k)"
  unfolding returns_new_def
proof (intro allI impI)
  fix w :: "'a rasterizer \<times> 'a heap" and a
  assume r: "fst (bindS m k w) = Inr a"
  obtain self H where w: "w = (self, H)" by (cases w)
  from assms(1) obtain new where m: "snd (m (self, H)) = (self, H @ new)"
    unfolding preserving_def by blast
  show "length (snd w) \<le> a \<and> a < length (snd (snd (bindS m k w)))"
  proof (cases "fst (m (self, H))")
    case (Inl e)
    with m have "m (self, H) = (Inl e, (self, H @ new))" by (metis prod.collapse)
    with r w show ?thesis by (simp add: bindS_def)
  next
    case (Inr v)
    with m have mm: "m (self, H) = (Inr v, (self, H @ new))" by (metis prod.collapse)
    with r w have "fst (k v (self, H @ new)) = Inr a" by (simp add: bindS_def)
    with assms(2) [of v] have
      "length (H @ new) \<le> a \<and> a < length (snd (snd (k v (self, H @ new))))"
      unfolding returns_new_def by fastforce
    with mm w show ?thesis by (simp add: bindS_def)
  qed
qed

lemma returns_new_case_prod: "(\<And>a b. returns_new (f a b)) \<Longrightarrow> returns_new (case_prod f p)"
  by (cases p) simp

lemma rasterize_st_returns_new:
  assumes "read_only L"
  shows "returns_new (rasterize_st L N history_frames history_agents agent)"
proof -
  from assms have
    y: "\<And>m. only_allocates (rotation33_as_yaw_st L m)" and
    w: "\<And>rs ps t y ec. only_allocates (world_to_image_pixels_matrix_st L rs ps t y ec)" and
    p: "\<And>p m. only_allocates (transform_point_st L p m)" and
    c: "\<And>im rs c y ps s i. only_allocates (get_sat_image_crop_scaled_st L im rs c y ps s i)"
    unfolding read_only_def by blast+
  show ?thesis
    unfolding rasterize_st_def
    by (intro returns_new_bindS returns_new_case_prod returns_new_alloc preserving_bindS preserving_case_prod
        preserving_case_option preserving_eval preserving_attr preserving_fetch preserving_alloc preserving_call y w p c)
qed

lemma rasterize_st_ignores_norm:
  "rasterize_st L (N\<lparr>linalg_norm := n\<rparr>) hf ha ag = rasterize_st L N hf ha ag"
  by (simp add: rasterize_st_def)

lemma invoke_ignores_norm: "invoke L (N\<lparr>linalg_norm := n\<rparr>) c = invoke L N c"
  by (cases c) (simp_all add: rasterize_st_ignores_norm)

subsection \<open>Reading the store\<close>

lemma read_vec_Inr: "read_vec H a = Inr v \<longleftrightarrow> a < length H \<and> H ! a = Vec v"
  by (auto simp: read_vec_def deref_def bindE_def split: ndarray.splits)

lemma read_mat_Inr: "read_mat H a = Inr m \<longleftrightarrow> a < length H \<and> H ! a = Mat m"
  by (auto simp: read_mat_def deref_def bindE_def split: ndarray.splits)

lemma read_img_Inr: "read_img H a = Inr im \<longleftrightarrow> a < length H \<and> H ! a = Img im"
  by (auto simp: read_img_def deref_def bindE_def split: ndarray.splits)

lemma read_vec_old: "read_vec H a = Inr v \<Longrightarrow> read_vec (H @ new) a = Inr v"
  by (simp add: read_vec_Inr nth_append)

lemma read_mat_old: "read_mat H a = Inr v \<Longrightarrow> read_mat (H @ new) a = Inr v"
  by (simp add: read_mat_Inr nth_append)

lemma read_img_old: "read_img H a = Inr v \<Longrightarrow> read_img (H @ new) a = Inr v"
  by (simp add: read_img_Inr nth_append)

lemma snapshot_Inr:
  "snapshot self H = Inr eng \<longleftrightarrow>
   read_vec H (pixel_size_attr self) = Inr (pixel_size eng) \<and>
   read_vec H (ego_center_attr self) = Inr (ego_center eng) \<and>
   read_img H (map_im_attr self) = Inr (map_im eng) \<and>
   read_mat H (map_to_sat_attr self) = Inr (map_to_sat eng) \<and>
   raster_size eng = raster_size_attr self \<and>
   interpolation eng = interpolation_attr self \<and>
   map_pixel_scale eng = map_pixel_scale_attr self"
  by (cases eng) (auto simp: snapshot_def bindE_Inr_iff)

lemma snapshot_old: "snapshot self H = Inr eng \<Longrightarrow> snapshot self (H @ new) = Inr eng"
  by (simp add: snapshot_Inr read_vec_old read_mat_old read_img_old)

lemma as_triple_Inr: "as_triple v = Inr t \<longleftrightarrow> v = [fst t, fst (snd t), snd (snd t)]"
  by (cases t) (auto simp: as_triple_def split: list.splits)

lemma as_pair_Inr: "as_pair v = Inr t \<longleftrightarrow> v = [fst t, snd t]"
  by (cases t) (auto simp: as_pair_def split: list.splits)

lemma frame_at_Inr:
  "frame_at H r = Inr f \<longleftrightarrow>
   read_vec H (ego_translation_at r)
     = Inr [fst (ego_translation f), fst (snd (ego_translation f)), snd (snd (ego_translation f))] \<and>
   read_mat H (ego_rotation_at r) = Inr (ego_rotation f)"
  by (cases f) (auto simp: frame_at_def bindE_Inr_iff as_triple_Inr)

lemma agent_at_Inr:
  "agent_at H r = Inr a \<longleftrightarrow>
   read_vec H (centroid_at r) = Inr [fst (centroid a), snd (centroid a)] \<and> yaw a = yaw_of r"
  by (cases a) (auto simp: agent_at_def bindE_Inr_iff as_pair_Inr)

lemma returning_only_allocates: "\<exists>new. snd (returning mk r H) = H @ new"
  by (cases r) (simp_all add: returning_def)

lemma read_only_lift: "read_only (lift N)"
  by (simp add: read_only_def only_allocates_def lift_def returning_only_allocates del: split_paired_All)

subsection \<open>The statements compute what the function of values computes\<close>

text \<open>
  With the lifted helpers of \<open>deps\<close>, on a store that holds the arrays of the
  object, of the frames and of the agent, \<open>rasterize_st\<close> raises what
  \<open>rasterize\<close> raises and returns a new array holding what \<open>rasterize\<close> returns.
  Likewise for \<open>to_rgb\<close>; and the object that the constructor returns reads as the
  record of the values it was given, with the pixel scale computed from them.
\<close>

lemma refine_None:
  assumes eng: "snapshot self H = Inr eng" and f: "frame_at H fr = Inr f"
  shows "\<exists>new. rasterize_st (lift N) N (fr # rest) ha None (self, H) =
           (case rasterize N eng (f # restv) hav None of
              Inl e \<Rightarrow> (Inl e, self, H @ new)
            | Inr out \<Rightarrow> (Inr (length H + length new), self, H @ new @ [FImg Float32 out]))"
proof -
  obtain x y z where t: "ego_translation f = (x, y, z)" by (cases "ego_translation f") auto
  from eng have
    ps: "read_vec H (pixel_size_attr self) = Inr (pixel_size eng)" and
    ec: "read_vec H (ego_center_attr self) = Inr (ego_center eng)" and
    im: "read_img H (map_im_attr self) = Inr (map_im eng)" and
    ms: "read_mat H (map_to_sat_attr self) = Inr (map_to_sat eng)" and
    rs: "raster_size_attr self = raster_size eng" and
    ip: "interpolation_attr self = interpolation eng" and
    sc: "map_pixel_scale_attr self = map_pixel_scale eng"
    by (simp_all add: snapshot_Inr)
  from f t have
    tr: "read_vec H (ego_translation_at fr) = Inr [x, y, z]" and
    ro: "read_mat H (ego_rotation_at fr) = Inr (ego_rotation f)"
    by (simp_all add: frame_at_Inr)
  from ps ec im ms tr ro have lt:
    "pixel_size_attr self < length H" "ego_center_attr self < length H"
    "map_im_attr self < length H" "map_to_sat_attr self < length H"
    "ego_translation_at fr < length H" "ego_rotation_at fr < length H"
    and at:
    "H ! pixel_size_attr self = Vec (pixel_size eng)"
    "H ! ego_center_attr self = Vec (ego_center eng)"
    "H ! map_im_attr self = Img (map_im eng)"
    "H ! map_to_sat_attr self = Mat (map_to_sat eng)"
    "H ! ego_translation_at fr = Vec [x, y, z]"
    "H ! ego_rotation_at fr = Mat (ego_rotation f)"
    by (simp_all add: read_vec_Inr read_mat_Inr read_img_Inr)
  show ?thesis
    unfolding rasterize_st_def rasterize_def
    by (simp add: first_def bindS_def eval_def attr_def fetch_def alloc_def call_def lift_def
        returning_def read_vec_def read_mat_def read_img_def deref_def bindE_def nth_append
        as_triple_def elem_def third_def Let_def less_SucI
        lt at t rs ip sc split: sum.split)
qed

lemma refine_Some:
  assumes eng: "snapshot self H = Inr eng" and f: "frame_at H fr = Inr f"
    and a: "agent_at H ar = Inr a"
  shows "\<exists>new. rasterize_st (lift N) N (fr # rest) ha (Some ar) (self, H) =
           (case rasterize N eng (f # restv) hav (Some a) of
              Inl e \<Rightarrow> (Inl e, self, H @ new)
            | Inr out \<Rightarrow> (Inr (length H + length new), self, H @ new @ [FImg Float32 out]))"
proof -
  obtain x y z where t: "ego_translation f = (x, y, z)" by (cases "ego_translation f") auto
  obtain cx cy where c: "centroid a = (cx, cy)" by (cases "centroid a") auto
  from eng have
    ps: "read_vec H (pixel_size_attr self) = Inr (pixel_size eng)" and
    ec: "read_vec H (ego_center_attr self) = Inr (ego_center eng)" and
    im: "read_img H (map_im_attr self) = Inr (map_im eng)" and
    ms: "read_mat H (map_to_sat_attr self) = Inr (map_to_sat eng)" and
    rs: "raster_size_attr self = raster_size eng" and
    ip: "interpolation_attr self = interpolation eng" and
    sc: "map_pixel_scale_attr self = map_pixel_scale eng"
    by (simp_all add: snapshot_Inr)
  from f t have
    tr: "read_vec H (ego_translation_at fr) = Inr [x, y, z]"
    by (simp_all add: frame_at_Inr)
  from a c have
    ce: "read_vec H (centroid_at ar) = Inr [cx, cy]" and yw: "yaw_of ar = yaw a"
    by (simp_all add: agent_at_Inr)
  from ps ec im ms tr ce have lt:
    "pixel_size_attr self < length H" "ego_center_attr self < length H"
    "map_im_attr self < length H" "map_to_sat_attr self < length H"
    "ego_translation_at fr < length H" "centroid_at ar < length H"
    and at:
    "H ! pixel_size_attr self = Vec (pixel_size eng)"
    "H ! ego_center_attr self = Vec (ego_center eng)"
    "H ! map_im_attr self = Img (map_im eng)"
    "H ! map_to_sat_attr self = Mat (map_to_sat eng)"
    "H ! ego_translation_at fr = Vec [x, y, z]"
    "H ! centroid_at ar = Vec [cx, cy]"
    by (simp_all add: read_vec_Inr read_mat_Inr read_img_Inr)
  show ?thesis
    unfolding rasterize_st_def rasterize_def
    by (simp add: first_def bindS_def eval_def attr_def fetch_def alloc_def call_def lift_def
        returning_def read_vec_def read_mat_def read_img_def deref_def bindE_def nth_append
        as_triple_def elem_def last_elem_def third_def np_append2_def Let_def less_SucI
        lt at t c yw rs ip sc split: sum.split)
qed

lemma refine_Nil:
  "rasterize_st L N [] ha ag (self, H) = (Inl IndexError, self, H)"
  "rasterize N eng [] hav agv = Inl IndexError"
  by (simp_all add: rasterize_st_def rasterize_def first_def bindS_def eval_def bindE_def
      split: option.split)

lemma rasterize_st_refines:
  assumes eng: "snapshot self H = Inr eng"
    and frames: "list_all2 (\<lambda>r f. frame_at H r = Inr f) hf hfv"
    and agent: "rel_option (\<lambda>r a. agent_at H r = Inr a) ag agv"
  shows "\<exists>new. rasterize_st (lift N) N hf ha ag (self, H) =
           (case rasterize N eng hfv hav agv of
              Inl e \<Rightarrow> (Inl e, self, H @ new)
            | Inr out \<Rightarrow> (Inr (length H + length new), self, H @ new @ [FImg Float32 out]))"
proof (cases hf)
  case Nil
  with frames have "hfv = []" by simp
  with Nil show ?thesis by (simp add: refine_Nil)
next
  case (Cons fr rest)
  with frames obtain f restv where v: "hfv = f # restv" and f: "frame_at H fr = Inr f"
    by (auto simp: list_all2_Cons1)
  show ?thesis
  proof (cases ag)
    case None
    with agent have "agv = None" by simp
    with None Cons v refine_None [OF eng f] show ?thesis by simp
  next
    case (Some ar)
    with agent obtain a where "agv = Some a" and "agent_at H ar = Inr a"
      by (auto simp: option_rel_Some1)
    with Some Cons v refine_Some [OF eng f] show ?thesis by simp
  qed
qed

lemma to_rgb_st_refines:
  assumes "read_fimg H in_im = Inr (d, x)"
  shows "to_rgb_st in_im (self, H) = (Inr (length H), self, H @ [Bytes (to_rgb d x)])"
  using assms by (simp add: to_rgb_st_def bindS_def fetch_def alloc_def)

lemma init_snapshot:
  assumes "init N rs ps ec im mts interp H = (Inr self, H')"
    and "read_vec H ps = Inr ps'" and "read_vec H ec = Inr ec'"
    and "read_img H im = Inr im'" and "read_mat H mts = Inr m"
  shows "H' = H \<and>
         snapshot self H =
           Inr \<lparr>raster_size = rs,
                pixel_size = ps',
                ego_center = ec',
                map_im = im',
                map_to_sat = m,
                interpolation = (case interp of None \<Rightarrow> INTER_LINEAR | Some i \<Rightarrow> i),
                map_pixel_scale =
                  np_div N
                    (np_add N (np_div N (np_float N 1) (linalg_norm N (take 3 (m ! 0))))
                              (np_div N (np_float N 1) (linalg_norm N (take 3 (m ! 1)))))
                    (np_float N 2)\<rparr>"
  using assms
  by (auto simp: init_def snapshot_def row_slice_def bindE_def split: if_splits)

subsection \<open>The worked example in the store\<close>

lemma demo_snapshot: "snapshot demo_rasterizer demo_heap = Inr demo_engine"
  by (simp add: snapshot_def demo_rasterizer_def demo_heap_def demo_engine_def bindE_def
      read_vec_def read_img_def read_mat_def deref_def)

lemma demo_frame_at: "frame_at demo_heap demo_frame_ref = Inr demo_frame"
  by (simp add: frame_at_def demo_frame_ref_def demo_heap_def demo_frame_def bindE_def
      read_vec_def read_mat_def deref_def as_triple_def)

lemma demo_agent_at: "agent_at demo_heap demo_agent_ref = Inr demo_agent"
  by (simp add: agent_at_def demo_agent_ref_def demo_heap_def demo_agent_def bindE_def
      read_vec_def deref_def as_pair_def)

lemma demo_run_st:
  "\<exists>new. rasterize_st (lift demo) demo [demo_frame_ref] [] None (demo_rasterizer, demo_heap)
     = (Inr (7 + length new), demo_rasterizer, demo_heap @ new @ [FImg Float32 demo_out])"
proof -
  have l: "length demo_heap = 7" by (simp add: demo_heap_def)
  from rasterize_st_refines [OF demo_snapshot, of "[demo_frame_ref]" "[demo_frame]" None None
      demo "[]" "[]"]
  show ?thesis by (simp add: demo_frame_at demo_run l)
qed

lemma demo_run_agent_st:
  "\<exists>new. rasterize_st (lift demo) demo [demo_frame_ref] [] (Some demo_agent_ref)
            (demo_rasterizer, demo_heap)
     = (Inr (7 + length new), demo_rasterizer, demo_heap @ new @ [FImg Float32 demo_out])"
proof -
  have l: "length demo_heap = 7" by (simp add: demo_heap_def)
  from rasterize_st_refines [OF demo_snapshot, of "[demo_frame_ref]" "[demo_frame]"
      "Some demo_agent_ref" "Some demo_agent" demo "[]" "[]"]
  show ?thesis by (simp add: demo_frame_at demo_agent_at demo_run_agent l)
qed

lemma careless_crop_overwrites_map_im:
  "rasterize_st careless demo [demo_frame_ref] [] None (demo_rasterizer, demo_heap)
     = (Inr 10, demo_rasterizer,
        demo_heap[2 := Img []] @
          [Vec [1, 1], Mat [[1, 0, 0], [0, 1, 0], [0, 0, 1]], Vec [2, 2, 10, 10],
           FImg Float32 []])"
  by (simp add: rasterize_st_def careless_def demo_rasterizer_def demo_heap_def
      demo_frame_ref_def first_def bindS_def eval_def attr_def fetch_def alloc_def call_def
      read_vec_def read_mat_def read_img_def deref_def bindE_def elem_def demo_def demo_inv_def)

lemma scaled_read: "read_mat scaled_heap 3 = Inr scaled_map_to_sat"
  by (simp add: scaled_heap_def demo_heap_def read_mat_def deref_def bindE_def)

lemma short_read: "read_mat short_heap 3 = Inr [[1, 0, 0, 0]]"
  by (simp add: short_heap_def demo_heap_def read_mat_def deref_def bindE_def)

lemma flat_snapshot:
  "snapshot demo_rasterizer flat_heap = Inr (demo_engine\<lparr>pixel_size := [0, 0]\<rparr>)"
  by (simp add: snapshot_def demo_rasterizer_def flat_heap_def demo_heap_def demo_engine_def
      bindE_def read_vec_def read_img_def read_mat_def deref_def)

lemma flat_frame_at: "frame_at flat_heap demo_frame_ref = Inr demo_frame"
  by (simp add: frame_at_def demo_frame_ref_def flat_heap_def demo_heap_def demo_frame_def
      bindE_def read_vec_def read_mat_def deref_def as_triple_def)

lemma flat_run:
  "rasterize demo (demo_engine\<lparr>pixel_size := [0, 0]\<rparr>) [demo_frame] [] None
     = Inl LinAlgError"
  by (simp add: rasterize_def first_def bindE_def demo_def demo_yaw_def demo_frame_def
      demo_world_to_image_def demo_engine_def demo_inv_def)

lemma flat_run_st:
  "\<exists>new. rasterize_st (lift demo) demo [demo_frame_ref] [] None (demo_rasterizer, flat_heap)
     = (Inl LinAlgError, demo_rasterizer, flat_heap @ new)"
proof -
  from rasterize_st_refines [OF flat_snapshot, of "[demo_frame_ref]" "[demo_frame]" None None
      demo "[]" "[]"]
  show ?thesis by (simp add: flat_frame_at flat_run)
qed

subsection \<open>The example with dtypes, step by step\<close>
























subsection \<open>The loader's paths\<close>

lemma splitext_example: "splitext ''maps/sat.png'' = (''maps/sat'', ''.png'')"
  by code_simp

lemma splitext_examples:
  "splitext ''a/b.c/d'' = (''a/b.c/d'', [])"
  "splitext ''.bashrc'' = (''.bashrc'', [])"
  "splitext ''x.tar.gz'' = (''x.tar'', ''.gz'')"
  by code_simp+

lemma load_unreadable_image:
  assumes "require D key = Inr p"
    and "require D (fst (splitext key) @ ''.json'') = Inr q"
    and "imread D p = None"
  shows "load_image_and_metadata D key = Inl TypeError"
  using assms by (simp add: load_image_and_metadata_def bindE_def)

lemma load_invalid_metadata:
  assumes "require D key = Inr p"
    and "require D (fst (splitext key) @ ''.json'') = Inr q"
    and "imread D p = Some bgr"
    and "open_r D q = Inr f"
    and "json_load D f = Inl JSONDecodeError"
  shows "load_image_and_metadata D key = Inl JSONDecodeError"
  using assms by (simp add: load_image_and_metadata_def bindE_def)

lemma load_success:
  "load_image_and_metadata D key = Inr (rgb, metadata) \<longleftrightarrow>
   (\<exists>p q bgr f.
      require D key = Inr p \<and>
      require D (fst (splitext key) @ ''.json'') = Inr q \<and>
      imread D p = Some bgr \<and> rgb = map (map rev) bgr \<and>
      open_r D q = Inr f \<and> json_load D f = Inr metadata)"
  by (auto simp: load_image_and_metadata_def bindE_Inr_iff split: option.splits)

section \<open>The claims\<close>

subsection \<open>Pose selection\<close>



text \<open>The same at a call with an agent.\<close>

lemma rasterize_pose_agent_example:
  "\<exists>w. world_to_image_pixels_matrix demo (raster_size demo_engine) (pixel_size demo_engine)
          (fst (centroid demo_agent), snd (centroid demo_agent),
           snd (snd (ego_translation demo_frame)))
          (yaw demo_agent) (ego_center demo_engine) = Inr w"
  using demo_w2i by (simp add: demo_agent_def demo_frame_def)

subsection \<open>An agent at the ego pose\<close>




subsection \<open>Independence of history_agents\<close>

text \<open>
  C10. The result of \<open>rasterize\<close> does not depend on the argument
  \<open>history_agents\<close>: two calls that differ only there give the same result.
\<close>

theorem rasterize_ignores_history_agents:
  "rasterize N self history_frames history_agents agent =
   rasterize N self history_frames history_agents' agent"
  by (simp add: rasterize_def)

subsection \<open>The crop center\<close>



subsection \<open>The arguments of the crop\<close>



subsection \<open>Flip and normalization\<close>

text \<open>
  C5. Whenever \<open>rasterize\<close> returns, its result is the image the crop primitive
  returned with its rows in reverse order and every byte \<open>v\<close> replaced by the float32
  quotient \<open>v / 255\<close>, and nothing else; every value of the result lies in \<open>[0, 1]\<close>.
\<close>

theorem rasterize_flip_normalize:
  assumes "rasterize N self history_frames history_agents agent = Inr out"
  shows "\<exists>c y raw.
           get_sat_image_crop_scaled N (map_im self) (raster_size self) c y
             (pixel_size self) (map_pixel_scale self) (interpolation self) = Inr raw \<and>
           out = map (map (map (\<lambda>v. fl_round Float32 (real (unat v) / 255)))) (rev raw) \<and>
           (\<forall>row \<in> set out. \<forall>px \<in> set row. \<forall>x \<in> set px. 0 \<le> x \<and> x \<le> 1)"
proof -
  have n: "normalize_px = (\<lambda>v. fl_round Float32 (real (unat v) / 255))"
    by (rule ext) (simp only: normalize_px_def)
  obtain c y raw where
    r: "get_sat_image_crop_scaled N (map_im self) (raster_size self) c y
          (pixel_size self) (map_pixel_scale self) (interpolation self) = Inr raw"
    and o: "out = map (map (map normalize_px)) (rev raw)"
  proof (cases agent)
    case None
    with assms that show ?thesis unfolding None rasterize_None_Inr by blast
  next
    case (Some a)
    with assms that show ?thesis unfolding Some rasterize_Some_Inr by blast
  qed
  have "\<forall>row \<in> set out. \<forall>px \<in> set row. \<forall>x \<in> set px. 0 \<le> x \<and> x \<le> 1"
    unfolding o by (rule normalized_range)
  with r o show ?thesis unfolding n by blast
qed

theorem rasterize_flip_normalize_witness:
  "rasterize demo demo_engine [demo_frame] [] None = Inr demo_out \<and>
   (\<exists>c y raw.
      get_sat_image_crop_scaled demo (map_im demo_engine) (raster_size demo_engine) c y
        (pixel_size demo_engine) (map_pixel_scale demo_engine) (interpolation demo_engine)
        = Inr raw \<and>
      demo_out = map (map (map (\<lambda>v. fl_round Float32 (real (unat v) / 255)))) (rev raw) \<and>
      (\<forall>row \<in> set demo_out. \<forall>px \<in> set row. \<forall>x \<in> set px. 0 \<le> x \<and> x \<le> 1))"
  using rasterize_flip_normalize [OF demo_run] demo_run by simp

subsection \<open>No mutation\<close>

text \<open>
  C9. A call of \<open>rasterize\<close> leaves the object as it was, whatever its outcome, an
  exception included. Whatever the helpers do, the attribute table after the call is the
  attribute table before it: \<^verbatim>\<open>raster_size\<close>, \<^verbatim>\<open>interpolation\<close> and
  \<^verbatim>\<open>map_pixel_scale\<close> are the same values and \<^verbatim>\<open>pixel_size\<close>, \<^verbatim>\<open>ego_center\<close>,
  \<^verbatim>\<open>map_im\<close> and \<^verbatim>\<open>map_to_sat\<close> the same references. With helpers that keep to
  their contract, every array that existed before the call holds what it held, so the
  seven fields read through the object are the same; and what the call creates are new
  arrays, the returned image among them.
\<close>

theorem rasterize_leaves_engine:
  "fst (snd (rasterize_st L N history_frames history_agents agent (self, H))) = self \<and>
   (read_only L \<longrightarrow>
      (\<exists>new.
         snd (rasterize_st L N history_frames history_agents agent (self, H))
           = (self, H @ new) \<and>
         (\<forall>a. a < length H \<longrightarrow> (H @ new) ! a = H ! a) \<and>
         (\<forall>eng. snapshot self H = Inr eng \<longrightarrow> snapshot self (H @ new) = Inr eng) \<and>
         (\<forall>out. fst (rasterize_st L N history_frames history_agents agent (self, H)) = Inr out
                \<longrightarrow> length H \<le> out \<and> out < length (H @ new))))"
proof (intro conjI impI)
  from rasterize_st_keeps_table [of L N history_frames history_agents agent]
  show "fst (snd (rasterize_st L N history_frames history_agents agent (self, H))) = self"
    unfolding keeps_table_def by simp
next
  assume ro: "read_only L"
  from rasterize_st_preserving [OF ro, of N history_frames history_agents agent]
  obtain new where
    s: "snd (rasterize_st L N history_frames history_agents agent (self, H)) = (self, H @ new)"
    unfolding preserving_def by blast
  from rasterize_st_returns_new [OF ro, of N history_frames history_agents agent] s
  have "\<forall>out. fst (rasterize_st L N history_frames history_agents agent (self, H)) = Inr out
          \<longrightarrow> length H \<le> out \<and> out < length (H @ new)"
    unfolding returns_new_def by fastforce
  moreover have "\<forall>a. a < length H \<longrightarrow> (H @ new) ! a = H ! a"
    by (simp add: nth_append)
  ultimately show "\<exists>new.
         snd (rasterize_st L N history_frames history_agents agent (self, H))
           = (self, H @ new) \<and>
         (\<forall>a. a < length H \<longrightarrow> (H @ new) ! a = H ! a) \<and>
         (\<forall>eng. snapshot self H = Inr eng \<longrightarrow> snapshot self (H @ new) = Inr eng) \<and>
         (\<forall>out. fst (rasterize_st L N history_frames history_agents agent (self, H)) = Inr out
                \<longrightarrow> length H \<le> out \<and> out < length (H @ new))"
    using s snapshot_old by blast
qed

theorem rasterize_leaves_engine_witness:
  "read_only (lift demo) \<and>
   snapshot demo_rasterizer demo_heap = Inr demo_engine \<and>
   fst (snd (rasterize_st careless demo [demo_frame_ref] [] None (demo_rasterizer, demo_heap)))
     = demo_rasterizer \<and>
   (\<exists>new.
      rasterize_st (lift demo) demo [demo_frame_ref] [] None (demo_rasterizer, demo_heap)
        = (Inr (7 + length new), demo_rasterizer, demo_heap @ new @ [FImg Float32 demo_out])) \<and>
   (\<exists>new.
      snd (rasterize_st (lift demo) demo [demo_frame_ref] [] None (demo_rasterizer, demo_heap))
        = (demo_rasterizer, demo_heap @ new) \<and>
      snapshot demo_rasterizer (demo_heap @ new) = Inr demo_engine) \<and>
   (\<exists>new.
      rasterize_st (lift demo) demo [] [] None (demo_rasterizer, demo_heap)
        = (Inl IndexError, demo_rasterizer, demo_heap @ new) \<and>
      snapshot demo_rasterizer (demo_heap @ new) = Inr demo_engine) \<and>
   (\<exists>new.
      rasterize_st (lift demo) demo [demo_frame_ref] [] None (demo_rasterizer, flat_heap)
        = (Inl LinAlgError, demo_rasterizer, flat_heap @ new) \<and>
      snapshot demo_rasterizer (flat_heap @ new) = Inr (demo_engine\<lparr>pixel_size := [0, 0]\<rparr>))"
proof -
  from rasterize_leaves_engine [where L = "lift demo" and N = demo
      and history_frames = "[demo_frame_ref]" and history_agents = "[]" and agent = None
      and self = demo_rasterizer and H = demo_heap] read_only_lift demo_snapshot
  have a: "\<exists>new.
      snd (rasterize_st (lift demo) demo [demo_frame_ref] [] None (demo_rasterizer, demo_heap))
        = (demo_rasterizer, demo_heap @ new) \<and>
      snapshot demo_rasterizer (demo_heap @ new) = Inr demo_engine"
    by blast
  from rasterize_leaves_engine [where L = "lift demo" and N = demo
      and history_frames = "[]" and history_agents = "[]" and agent = None
      and self = demo_rasterizer and H = demo_heap] read_only_lift demo_snapshot
  have b: "\<exists>new.
      rasterize_st (lift demo) demo [] [] None (demo_rasterizer, demo_heap)
        = (Inl IndexError, demo_rasterizer, demo_heap @ new) \<and>
      snapshot demo_rasterizer (demo_heap @ new) = Inr demo_engine"
    by (simp add: refine_Nil)
  from flat_run_st obtain new where
    f: "rasterize_st (lift demo) demo [demo_frame_ref] [] None (demo_rasterizer, flat_heap)
          = (Inl LinAlgError, demo_rasterizer, flat_heap @ new)"
    by blast
  from rasterize_leaves_engine [where L = "lift demo" and N = demo
      and history_frames = "[demo_frame_ref]" and history_agents = "[]" and agent = None
      and self = demo_rasterizer and H = flat_heap, THEN conjunct2, THEN mp, OF read_only_lift]
    flat_snapshot
  have "snapshot demo_rasterizer (flat_heap @ new)
          = Inr (demo_engine\<lparr>pixel_size := [0, 0]\<rparr>)"
    unfolding f by simp
  with f have c: "\<exists>new.
      rasterize_st (lift demo) demo [demo_frame_ref] [] None (demo_rasterizer, flat_heap)
        = (Inl LinAlgError, demo_rasterizer, flat_heap @ new) \<and>
      snapshot demo_rasterizer (flat_heap @ new) = Inr (demo_engine\<lparr>pixel_size := [0, 0]\<rparr>)"
    by blast
  from rasterize_leaves_engine [where L = careless and N = demo
      and history_frames = "[demo_frame_ref]" and history_agents = "[]" and agent = None
      and self = demo_rasterizer and H = demo_heap]
  have d: "fst (snd (rasterize_st careless demo [demo_frame_ref] [] None
                       (demo_rasterizer, demo_heap))) = demo_rasterizer"
    by blast
  from a b c d read_only_lift demo_snapshot demo_run_st show ?thesis by blast
qed

subsection \<open>The cached pixel scale\<close>

text \<open>
  C3. Given a calibration matrix, the constructor returns exactly when the matrix has two
  rows, and the object it returns has \<^verbatim>\<open>map_pixel_scale\<close> equal to
  \<open>(1 / norm(map_to_sat[0, 0:3]) + 1 / norm(map_to_sat[1, 0:3])) / 2\<close>. After that,
  whatever sequence of calls of \<open>rasterize\<close> and \<open>to_rgb\<close> a client makes and
  whatever the helpers do, the attribute table is the one the constructor made and
  \<^verbatim>\<open>map_pixel_scale\<close> still holds that value; with helpers that keep to their
  contract the calibration matrix, too, is still the one the value was computed from. No
  method evaluates the norm again: a call does the same whatever \<open>linalg_norm\<close> is by
  then.
\<close>

theorem map_pixel_scale_cached:
  assumes "read_mat H mts = Inr m"
  shows "init N rs ps ec im mts interp H =
           (if 2 \<le> length m
            then Inr \<lparr>raster_size_attr = rs,
                      pixel_size_attr = ps,
                      ego_center_attr = ec,
                      map_im_attr = im,
                      map_to_sat_attr = mts,
                      interpolation_attr = (case interp of None \<Rightarrow> INTER_LINEAR | Some i \<Rightarrow> i),
                      map_pixel_scale_attr =
                        np_div N
                          (np_add N
                             (np_div N (np_float N 1) (linalg_norm N (take 3 (m ! 0))))
                             (np_div N (np_float N 1) (linalg_norm N (take 3 (m ! 1)))))
                          (np_float N 2)\<rparr>
            else Inl IndexError, H) \<and>
         (\<forall>self L N' cs.
            fst (init N rs ps ec im mts interp H) = Inr self \<longrightarrow>
            fst (run L N' cs (self, H)) = self \<and>
            map_pixel_scale_attr (fst (run L N' cs (self, H))) =
              np_div N
              (np_add N
                 (np_div N (np_float N 1) (linalg_norm N (take 3 (m ! 0))))
                 (np_div N (np_float N 1) (linalg_norm N (take 3 (m ! 1)))))
              (np_float N 2) \<and>
            (read_only L \<longrightarrow>
               read_mat (snd (run L N' cs (self, H)))
                 (map_to_sat_attr (fst (run L N' cs (self, H)))) = Inr m)) \<and>
         (\<forall>L N' n c. invoke L (N'\<lparr>linalg_norm := n\<rparr>) c = invoke L N' c)"
proof -
  let ?self = "\<lparr>raster_size_attr = rs,
                      pixel_size_attr = ps,
                      ego_center_attr = ec,
                      map_im_attr = im,
                      map_to_sat_attr = mts,
                      interpolation_attr = (case interp of None \<Rightarrow> INTER_LINEAR | Some i \<Rightarrow> i),
                      map_pixel_scale_attr =
                        np_div N
                          (np_add N
                             (np_div N (np_float N 1) (linalg_norm N (take 3 (m ! 0))))
                             (np_div N (np_float N 1) (linalg_norm N (take 3 (m ! 1)))))
                          (np_float N 2)\<rparr>"
  have i: "init N rs ps ec im mts interp H =
           (if 2 \<le> length m then Inr ?self else Inl IndexError, H)"
  proof (cases "2 \<le> length m")
    case True
    then have "0 < length m" "1 < length m" "m \<noteq> []" by auto
    with True assms show ?thesis by (simp add: init_def row_slice_def bindE_def)
  next
    case False
    then have "\<not> 1 < length m" by simp
    with False assms show ?thesis by (simp add: init_def row_slice_def bindE_def)
  qed
  have r: "read_only L \<longrightarrow> read_mat (snd (run L N' cs (self, H))) mts = Inr m"
    for self :: "'a rasterizer" and L N' cs
  proof
    assume "read_only L"
    from run_preserving [OF this, of N' cs self H] obtain new where
      "run L N' cs (self, H) = (self, H @ new)" by blast
    with assms show "read_mat (snd (run L N' cs (self, H))) mts = Inr m"
      by (simp add: read_mat_old)
  qed
  show ?thesis
    unfolding i using r by (auto simp: invoke_ignores_norm run_keeps_table)
qed

theorem map_pixel_scale_cached_witness:
  "read_mat scaled_heap 3 = Inr scaled_map_to_sat \<and>
   read_only (lift demo) \<and>
   init demo (2, 2) 0 1 2 3 None short_heap = (Inl IndexError, short_heap) \<and>
   init demo (2, 2) 0 1 2 3 None scaled_heap
     = (Inr (demo_rasterizer\<lparr>map_pixel_scale_attr := 1 / 2\<rparr>), scaled_heap) \<and>
   map_pixel_scale_attr
     (fst (run careless demo
             [Rasterize [demo_frame_ref] [] None, Rasterize [] [] None]
             (demo_rasterizer\<lparr>map_pixel_scale_attr := 1 / 2\<rparr>, scaled_heap))) = 1 / 2 \<and>
   map_pixel_scale_attr
     (fst (run (lift demo) demo
             [Rasterize [demo_frame_ref] [] None, New (Vec [0]), To_rgb 7,
              Rasterize [demo_frame_ref] [] (Some demo_agent_ref)]
             (demo_rasterizer\<lparr>map_pixel_scale_attr := 1 / 2\<rparr>, scaled_heap))) = 1 / 2 \<and>
   read_mat
     (snd (run (lift demo) demo
             [Rasterize [demo_frame_ref] [] None, New (Vec [0]), To_rgb 7,
              Rasterize [demo_frame_ref] [] (Some demo_agent_ref)]
             (demo_rasterizer\<lparr>map_pixel_scale_attr := 1 / 2\<rparr>, scaled_heap))) 3
     = Inr scaled_map_to_sat"
proof -
  note t = map_pixel_scale_cached [where N = demo and rs = "(2, 2)"
      and ps = 0 and ec = 1 and im = 2 and interp = None, OF scaled_read]
  have i: "init demo (2, 2) 0 1 2 3 None scaled_heap
     = (Inr (demo_rasterizer\<lparr>map_pixel_scale_attr := 1 / 2\<rparr>), scaled_heap)"
    using t [THEN conjunct1]
    by (simp add: scaled_map_to_sat_def demo_def demo_rasterizer_def INTER_LINEAR_def)
  let ?s = "demo_rasterizer\<lparr>map_pixel_scale_attr := 1 / 2\<rparr>"
  let ?w = "run (lift demo) demo
             [Rasterize [demo_frame_ref] [] None, New (Vec [0]), To_rgb 7,
              Rasterize [demo_frame_ref] [] (Some demo_agent_ref)] (?s, scaled_heap)"
  let ?c = "run careless demo
             [Rasterize [demo_frame_ref] [] None, Rasterize [] [] None] (?s, scaled_heap)"
  from i have s: "fst (init demo (2, 2) 0 1 2 3 None scaled_heap) = Inr ?s"
    by (simp only: fst_conv)
  from t have "fst (init demo (2, 2) 0 1 2 3 None scaled_heap) = Inr ?s \<longrightarrow>
      fst ?w = ?s \<and>
      (read_only (lift demo) \<longrightarrow>
         read_mat (snd ?w) (map_to_sat_attr (fst ?w)) = Inr scaled_map_to_sat)"
    by blast
  with s read_only_lift have
    r: "fst ?w = ?s" "read_mat (snd ?w) (map_to_sat_attr (fst ?w)) = Inr scaled_map_to_sat"
    by blast+
  from t have "fst (init demo (2, 2) 0 1 2 3 None scaled_heap) = Inr ?s \<longrightarrow> fst ?c = ?s"
    by blast
  with s have c: "fst ?c = ?s" by blast
  have a: "map_pixel_scale_attr ?s = 1 / 2" "map_to_sat_attr ?s = 3"
    by (simp_all add: demo_rasterizer_def)
  from r(2) have "read_mat (snd ?w) 3 = Inr scaled_map_to_sat"
    unfolding r(1) a(2) .
  moreover have "init demo (2, 2) 0 1 2 3 None short_heap = (Inl IndexError, short_heap)"
    using map_pixel_scale_cached [where N = demo and rs = "(2, 2)"
      and ps = 0 and ec = 1 and im = 2 and interp = None, OF short_read, THEN conjunct1]
    by simp
  ultimately show ?thesis
    using r(1) c a(1) i scaled_read read_only_lift by (simp only: simp_thms)
qed

subsection \<open>The loader on an image that does not decode\<close>

text \<open>
  C8. The loader's docstring promises FileNotFoundError whenever the image or its
  metadata is missing or invalid. At a store where both files exist and the image does
  not decode, \<^verbatim>\<open>cv2.imread\<close> returns \<^verbatim>\<open>None\<close>, the subscript \<^verbatim>\<open>[..., ::-1]\<close> is
  applied to it before the test \<^verbatim>\<open>image is None\<close> is reached, and the loader raises
  TypeError. (The metadata key is the image key with its extension replaced by
  \<^verbatim>\<open>.json\<close>, and a successful load returns the channel-reversed image with the parsed
  metadata: \<open>load_success\<close>.)
\<close>

theorem load_corrupt_image_raises_TypeError:
  "load_image_and_metadata corrupt_store ''maps/sat.png'' = Inl TypeError"
proof -
  have k: "fst (splitext ''maps/sat.png'') @ ''.json'' = ''maps/sat.json''"
    by (simp add: splitext_example)
  have a: "require corrupt_store ''maps/sat.png'' = Inr ''/data/maps/sat.png''"
    by (simp add: corrupt_store_def)
  have b: "require corrupt_store (fst (splitext ''maps/sat.png'') @ ''.json'')
             = Inr ''/data/maps/sat.json''"
    unfolding k by (simp add: corrupt_store_def)
  have c: "imread corrupt_store ''/data/maps/sat.png'' = None"
    by (simp add: corrupt_store_def)
  show ?thesis by (rule load_unreadable_image [OF a b c])
qed

subsection \<open>to_rgb\<close>

text \<open>
  C6, as stated: for every float image with values in \<open>[0, 1]\<close>, \<open>to_rgb\<close> equals
  \<open>round(x * 255)\<close> elementwise. It fails at the float32 image holding the single
  value \<open>0.25\<close>: the product is \<open>63.75\<close>, which the cast \<^verbatim>\<open>astype(np.uint8)\<close>
  truncates to 63, where rounding gives 64.
\<close>

theorem to_rgb_round_counterexample:
  "to_rgb Float32 [[[1 / 4]]] = [[[Some 63]]] \<and>
   round_even (fl_round Float32 (1 / 4 * 255)) = 64 \<and>
   to_rgb Float32 [[[1 / 4]]]
     \<noteq> [[[Some (word_of_int (round_even (fl_round Float32 (1 / 4 * 255))))]]]"
  by (simp add: to_rgb_def fl_round_quarter astype_uint8_def trunc_def round_even_def)

text \<open>
  C6, amended: for every float image (float32 or float64) with values in \<open>[0, 1]\<close>,
  \<open>to_rgb\<close> equals, elementwise, the float product \<open>x * 255\<close> truncated to an
  integer (its floor), which is a uint8; and \<open>to_rgb\<close> inverts the normalization
  step at the end of \<open>rasterize\<close>: applied to the normalized image of a uint8 image
  it returns that image.
\<close>

theorem to_rgb_truncates:
  assumes "\<forall>row \<in> set in_im. \<forall>px \<in> set row. \<forall>x \<in> set px. 0 \<le> x \<and> x \<le> 1"
  shows "to_rgb d in_im
           = map (map (map (\<lambda>x. Some (word_of_int \<lfloor>fl_round d (x * 255)\<rfloor>)))) in_im \<and>
         to_rgb Float32 (map (map (map normalize_px)) raw) = map (map (map Some)) raw"
proof
  show "to_rgb d in_im
          = map (map (map (\<lambda>x. Some (word_of_int \<lfloor>fl_round d (x * 255)\<rfloor>)))) in_im"
    unfolding to_rgb_def using assms by (auto intro!: map_cong simp: to_rgb_byte)
  show "to_rgb Float32 (map (map (map normalize_px)) raw) = map (map (map Some)) raw"
    unfolding to_rgb_def by (simp add: comp_def to_rgb_normalize_px)
qed

theorem to_rgb_truncates_witness:
  "to_rgb Float32 [[[1 / 4, 0, 1]]] = [[[Some 63, Some 0, Some 255]]] \<and>
   to_rgb Float32 (map (map (map normalize_px)) demo_raw) = map (map (map Some)) demo_raw"
proof -
  have h: "\<forall>row \<in> set [[[1 / 4, 0, 1 :: real]]]. \<forall>px \<in> set row. \<forall>x \<in> set px. 0 \<le> x \<and> x \<le> 1"
    by simp
  show ?thesis
    using to_rgb_truncates [OF h, of Float32 demo_raw]
    by (simp add: fl_round_quarter fl_round_zero fl_round_255)
qed

end
